(* ===== verification/Prelude.thy ===== *)
theory Prelude
  imports Main "HOL-Library.Word" "HOL-Library.List_Lexorder"
begin

text \<open>
  Shared vocabulary of the Byte Battle development: the machine-integer types of the
  Rust source as words, byte strings as lists of bytes, the failures an invocation can
  abort with, and a strict bind on results (\<open>error + 'a\<close>, \<open>Inl\<close> the abort) with the
  lemmas that let \<open>simp\<close> run through a chain of fallible steps. Every panic, trap and
  failed \<open>unwrap\<close> of the source is one \<open>Inl\<close> value of this type.
\<close>

unbundle bit_operations_syntax

section \<open>Machine types\<close>

type_synonym u8 = "8 word"
type_synonym u32 = "32 word"
type_synonym u64 = "64 word"
text \<open>Rust's \<open>i64\<close>: a 64-bit word read as two's complement with \<open>sint\<close>; \<open>+\<close> wraps.\<close>
type_synonym i64 = "64 word"
text \<open>\<open>Bytes\<close> and \<open>BytesN<32>\<close> of the SDK: lists of bytes, compared lexicographically.\<close>
type_synonym bytes = "u8 list"

section \<open>Failures\<close>

text \<open>
  The ways an invocation aborts. The two nonce errors are the contract's own
  \<open>Error\<close> enum (auth.rs); the others are panics of lib.rs, of the token contract, or traps
  of the host (signature verification, storage conversion, \<open>unwrap\<close> on \<open>None\<close>).
\<close>

datatype token_error = TokenBadNonce | NegativeAmount | InsufficientAllowance | InsufficientBalance

datatype error =
    IncorrectNonceForInvoker
  | IncorrectNonce
  | AlreadyInitialized
  | InvalidAuthorization
  | Uninitialized
  | ConversionError
  | NoSuchContract
  | IndexOutOfBounds
  | TokenFailed token_error

type_synonym 'a result = "error + 'a"

section \<open>Sequencing fallible steps\<close>

named_theorems result_simps "characterisations of successful and failing results"

definition bind_res :: "'e + 'a \<Rightarrow> ('a \<Rightarrow> 'e + 'b) \<Rightarrow> 'e + 'b" where
  "bind_res m f = (case m of Inl err \<Rightarrow> Inl err | Inr a \<Rightarrow> f a)"

text \<open>A Rust \<open>panic!\<close> guarded by a condition: \<open>if bad { panic!(err) }\<close>.\<close>
definition check :: "bool \<Rightarrow> 'e \<Rightarrow> 'e + unit" where
  "check ok err = (if ok then Inr () else Inl err)"

text \<open>\<open>Option::unwrap\<close>: \<open>None\<close> aborts with the given failure.\<close>
definition unwrap :: "'e \<Rightarrow> 'a option \<Rightarrow> 'e + 'a" where
  "unwrap err x = (case x of None \<Rightarrow> Inl err | Some a \<Rightarrow> Inr a)"

text \<open>A sequence of fallible steps on a state, stopping at the first abort.\<close>

fun run_res :: "('s \<Rightarrow> 'a \<Rightarrow> 'e + 's) \<Rightarrow> 's \<Rightarrow> 'a list \<Rightarrow> 'e + 's" where
  "run_res f s [] = Inr s"
| "run_res f s (x # xs) = bind_res (f s x) (\<lambda>s'. run_res f s' xs)"

lemma bind_res_Inl [simp]: "bind_res (Inl err) f = Inl err"
  by (simp add: bind_res_def)

lemma bind_res_Inr [simp]: "bind_res (Inr a) f = f a"
  by (simp add: bind_res_def)

lemma bind_res_eq_Inr [result_simps]:
  "bind_res m f = Inr b \<longleftrightarrow> (\<exists>a. m = Inr a \<and> f a = Inr b)"
  by (cases m) auto

lemma map_sum_ident [simp]: "map_sum (\<lambda>x. x) (\<lambda>x. x) m = m"
  by (cases m) simp_all

lemma map_sum_eq_Inl_id [simp]: "map_sum (\<lambda>x. x) g m = Inl err \<longleftrightarrow> m = Inl err"
  by (cases m) auto

lemma bind_res_Inr_tail [simp]: "bind_res m (\<lambda>x. Inr (g x)) = Inl err \<longleftrightarrow> m = Inl err"
  by (cases m) auto

lemma bind_res_neq_Inl:
  "m \<noteq> Inl err \<Longrightarrow> (\<And>a. m = Inr a \<Longrightarrow> f a \<noteq> Inl err) \<Longrightarrow> bind_res m f \<noteq> Inl err"
  by (cases m) auto

lemma bind_res_eq_Inl [result_simps]:
  "bind_res m f = Inl err \<longleftrightarrow> m = Inl err \<or> (\<exists>a. m = Inr a \<and> f a = Inl err)"
  by (cases m) auto

lemma check_simps [simp]:
  "check True err = Inr ()" "check False err = Inl err"
  by (simp_all add: check_def)

lemma check_eq_Inr [result_simps]: "check ok err = Inr u \<longleftrightarrow> ok"
  by (simp add: check_def)

lemma bind_check [simp]:
  "bind_res (check ok err) f = (if ok then f () else Inl err)"
  by (simp add: check_def)

lemma unwrap_simps [simp]:
  "unwrap err None = Inl err" "unwrap err (Some a) = Inr a"
  by (simp_all add: unwrap_def)

lemma unwrap_eq_Inr [result_simps]: "unwrap err x = Inr a \<longleftrightarrow> x = Some a"
  by (cases x) auto

lemma unwrap_eq_Inl [result_simps]: "unwrap err x = Inl e \<longleftrightarrow> x = None \<and> e = err"
  by (cases x) auto

lemma check_eq_Inl [result_simps]: "check ok err = Inl e \<longleftrightarrow> \<not> ok \<and> e = err"
  by (auto simp: check_def)

lemma run_res_append:
  "run_res f s (xs @ ys) = bind_res (run_res f s xs) (\<lambda>s'. run_res f s' ys)"
  by (induction xs arbitrary: s) (auto simp: bind_res_def split: sum.splits)

section \<open>Words\<close>

text \<open>
  \<open>(t % 32) as u32\<close> for a \<open>u64\<close> timestamp \<open>t\<close>: the cast keeps the value, which is
  below 32.
\<close>

lemma unat_ucast_mod32: "unat (ucast (t mod 32) :: u32) = unat (t :: u64) mod 32"
proof -
  have "unat (t mod 32) = unat t mod 32"
    by (simp add: unat_mod)
  moreover have "unat t mod 32 < 2 ^ LENGTH(32)"
    by simp
  ultimately show ?thesis
    by (simp add: unsigned_ucast_eq take_bit_nat_eq_self)
qed

lemma unat_plus16_small:
  "unat (x :: u32) < 32 \<Longrightarrow> unat (x + 16) = unat x + 16"
  by (simp add: unat_add_lem [THEN iffD1])

lemma map_sum_bind_res:
  "map_sum (\<lambda>x. x) g (bind_res x f) = bind_res x (\<lambda>v. map_sum (\<lambda>x. x) g (f v))"
  by (cases x) simp_all

lemma bind_res_map_sum:
  "bind_res (map_sum (\<lambda>x. x) g x) f = bind_res x (\<lambda>v. f (g v))"
  by (cases x) simp_all

lemma sint_succ_i64: "sint (n :: i64) < 2 ^ 63 - 1 \<Longrightarrow> sint (n + 1) = sint n + 1"
  using sint_ge [of n] by (simp add: sint_word_add signed_take_bit_int_eq_self)

lemma sint_eq_iff: "sint (a :: i64) = sint b \<longleftrightarrow> a = b"
  by (auto intro: signed_word_eqI)

lemma sint_eq_0_iff [simp]: "sint (a :: i64) = 0 \<longleftrightarrow> a = 0"
  using sint_eq_iff [of a 0] by simp

end
