(* ===== verification/Host.thy ===== *)
theory Host
  imports Prelude
begin

text \<open>
  The parts of the Soroban host and of the \<open>soroban_auth\<close> library that the contract
  calls: identities (\<open>Identifier\<close>), authorization proofs (\<open>Signature\<close>), the
  canonical signature payload, \<open>verify\<close>, \<open>Signature::identifier\<close>, the ledger context
  of an invocation, and \<open>Bytes::get\<close>. None of this is under src/; it is modelled
  from the interface the spec describes (section 6) and the library's documented
  behaviour. Cryptography is idealised: an Ed25519 signature value is \<open>SignedBy pk msg\<close>,
  the message \<open>msg\<close> signed with the secret key of \<open>pk\<close>, and it verifies exactly
  against that key and that message.
\<close>

section \<open>Identities and proofs\<close>

type_synonym account_id = bytes

text \<open>\<open>soroban_auth::Identifier\<close>, constructors in the library's order.\<close>
datatype ident = Contract bytes | Ed25519 bytes | Account account_id

text \<open>Arguments of a signed call, as host values (\<open>RawVal\<close>).\<close>
datatype rawval = RId ident | RI64 i64 | RBigInt int | RBytes bytes

text \<open>\<open>SignaturePayload::V0\<close>: function name, contract id, network passphrase, arguments.\<close>
datatype payload = SignaturePayloadV0 string bytes bytes "rawval list"

datatype ed25519_sig = SignedBy bytes payload

record ed25519_signature =
  public_key :: bytes
  signature :: ed25519_sig

record account_signatures =
  account_id :: account_id
  signatures :: "ed25519_signature list"

text \<open>\<open>soroban_auth::Signature\<close>: \<open>Invoker\<close>, \<open>Ed25519(..)\<close>, \<open>Account(..)\<close>.\<close>
datatype signature = Invoker | Ed25519Sig ed25519_signature | AccountSig account_signatures

text \<open>An account's signer policy, owned by the ledger's account system.\<close>
record account_info =
  medium_threshold :: nat
  signer_weight :: "bytes \<Rightarrow> nat"

section \<open>The context of one invocation\<close>

text \<open>
  What \<open>Env\<close> answers during one invocation: the direct caller, this contract's id, the
  network, the ledger time, the accounts known to the ledger, and the serializer of
  account ids (\<open>AccountId::serialize\<close>, an XDR encoding of the host).
\<close>

record env =
  invoker :: ident
  current_contract :: bytes
  network_passphrase :: bytes
  timestamp :: u64
  accounts :: "account_id \<rightharpoonup> account_info"
  serialize_account :: "account_id \<Rightarrow> bytes"

text \<open>\<open>Signature::identifier\<close>: the identity a proof speaks for.\<close>
fun sig_identifier :: "env \<Rightarrow> signature \<Rightarrow> ident" where
  "sig_identifier e Invoker = invoker e"
| "sig_identifier e (Ed25519Sig s) = Ed25519 (public_key s)"
| "sig_identifier e (AccountSig a) = Account (account_id a)"

section \<open>Signature verification\<close>

definition signature_payload :: "env \<Rightarrow> string \<Rightarrow> rawval list \<Rightarrow> payload" where
  "signature_payload e name args =
     SignaturePayloadV0 name (current_contract e) (network_passphrase e) args"

definition verify_sig_ed25519 :: "bytes \<Rightarrow> payload \<Rightarrow> ed25519_sig \<Rightarrow> bool" where
  "verify_sig_ed25519 pk msg sg \<longleftrightarrow> sg = SignedBy pk msg"

text \<open>
  The loop over an account's signatures: public keys strictly increasing (no key counted
  twice), each signature valid, weights summed.
\<close>

fun account_weight ::
  "account_info \<Rightarrow> payload \<Rightarrow> bytes option \<Rightarrow> nat \<Rightarrow> ed25519_signature list \<Rightarrow> nat result" where
  "account_weight acc msg prev w [] = Inr w"
| "account_weight acc msg prev w (s # ss) =
     (if (case prev of None \<Rightarrow> False | Some p \<Rightarrow> public_key s \<le> p) then Inl InvalidAuthorization
      else if \<not> verify_sig_ed25519 (public_key s) msg (signature s) then Inl InvalidAuthorization
      else account_weight acc msg (Some (public_key s)) (w + signer_weight acc (public_key s)) ss)"

definition verify_account_signatures :: "env \<Rightarrow> account_signatures \<Rightarrow> payload \<Rightarrow> unit result" where
  "verify_account_signatures e a msg =
     bind_res (unwrap InvalidAuthorization (accounts e (account_id a))) (\<lambda>acc.
     bind_res (account_weight acc msg None 0 (signatures a)) (\<lambda>w.
     check (medium_threshold acc \<le> w) InvalidAuthorization))"

text \<open>
  \<open>soroban_auth::verify\<close>: an \<open>Invoker\<close> proof needs no signature (the host has
  authenticated the direct caller); the others must sign the canonical payload.
\<close>

fun verify :: "env \<Rightarrow> signature \<Rightarrow> string \<Rightarrow> rawval list \<Rightarrow> unit result" where
  "verify e Invoker name args = Inr ()"
| "verify e (Ed25519Sig s) name args =
     check (verify_sig_ed25519 (public_key s) (signature_payload e name args) (signature s))
       InvalidAuthorization"
| "verify e (AccountSig a) name args = verify_account_signatures e a (signature_payload e name args)"

section \<open>Bytes\<close>

text \<open>\<open>Bytes::get\<close>: \<open>None\<close> past the end.\<close>
definition bytes_get :: "bytes \<Rightarrow> u32 \<Rightarrow> u8 option" where
  "bytes_get b i = (if unat i < length b then Some (b ! unat i) else None)"

text \<open>
  A proof binds its message when it carries a signature at all: a key proof always does;
  an account proof does when the account's threshold is positive (a zero threshold is met
  by an empty list of signatures).
\<close>

definition binding_sig :: "env \<Rightarrow> signature \<Rightarrow> bool" where
  "binding_sig e s = (case s of
       Invoker \<Rightarrow> False
     | Ed25519Sig _ \<Rightarrow> True
     | AccountSig a \<Rightarrow>
         (case accounts e (account_id a) of None \<Rightarrow> True | Some acc \<Rightarrow> 0 < medium_threshold acc))"

text \<open>
  The contract the account loop implements, stated without the loop: the signatures'
  public keys strictly increase (lexicographically, so no key is counted twice), every
  signature is valid for the message, and the weight is the sum of the signers' weights.
\<close>

definition account_weight_spec :: "account_info \<Rightarrow> payload \<Rightarrow> ed25519_signature list \<Rightarrow> nat result" where
  "account_weight_spec acc msg ss =
     (if sorted_wrt (<) (map public_key ss) \<and>
         list_all (\<lambda>s. verify_sig_ed25519 (public_key s) msg (signature s)) ss
      then Inr (sum_list (map (\<lambda>s. signer_weight acc (public_key s)) ss))
      else Inl InvalidAuthorization)"

section \<open>Lemmas\<close>

lemma verify_Ed25519Sig_iff [result_simps]:
  "verify e (Ed25519Sig s) name args = Inr u \<longleftrightarrow>
   signature s = SignedBy (public_key s) (signature_payload e name args)"
  by (simp add: verify_sig_ed25519_def check_eq_Inr)

lemma signature_payload_inj [simp]:
  "signature_payload e name args = signature_payload e name' args' \<longleftrightarrow> name = name' \<and> args = args'"
  by (simp add: signature_payload_def)

text \<open>
  Every signature the account loop accepts was made over the loop's message, and a loop
  that ends with more weight than it started with has looked at a signature.
\<close>

lemma account_weight_Inr_signed:
  "account_weight acc msg prev w ss = Inr w' \<Longrightarrow>
   \<forall>s \<in> set ss. signature s = SignedBy (public_key s) msg"
proof (induction ss arbitrary: prev w)
  case Nil
  then show ?case by simp
next
  case (Cons s ss)
  then show ?case
    by (auto simp: verify_sig_ed25519_def split: if_splits option.splits)
qed

lemma account_weight_Nil_Inr: "account_weight acc msg prev w [] = Inr w' \<Longrightarrow> w' = w"
  by simp

lemma verify_account_binding:
  assumes v1: "verify_account_signatures e a m1 = Inr ()"
    and v2: "verify_account_signatures e a m2 = Inr ()"
    and pos: "binding_sig e (AccountSig a)"
  shows "m1 = m2"
proof -
  from v1 obtain acc w1 where acc: "accounts e (account_id a) = Some acc"
    and w1: "account_weight acc m1 None 0 (signatures a) = Inr w1"
    and t1: "medium_threshold acc \<le> w1"
    by (auto simp: verify_account_signatures_def result_simps)
  from v2 acc obtain w2 where w2: "account_weight acc m2 None 0 (signatures a) = Inr w2"
    by (auto simp: verify_account_signatures_def result_simps)
  from pos acc t1 have "0 < w1"
    by (simp add: binding_sig_def)
  with w1 obtain s where s: "s \<in> set (signatures a)"
    by (cases "signatures a") auto
  with account_weight_Inr_signed [OF w1] account_weight_Inr_signed [OF w2]
  show ?thesis by fastforce
qed

text \<open>Two verifications of one binding proof were over one argument list.\<close>

lemma verify_binding:
  assumes "verify e s name args = Inr ()" and "verify e s name' args' = Inr ()"
    and "binding_sig e s"
  shows "name = name' \<and> args = args'"
proof (cases s)
  case Invoker
  with assms(3) show ?thesis by (simp add: binding_sig_def)
next
  case (Ed25519Sig k)
  with assms(1,2) show ?thesis
    by (auto simp: check_def verify_sig_ed25519_def split: if_splits)
next
  case (AccountSig a)
  with assms have "signature_payload e name args = signature_payload e name' args'"
    by (intro verify_account_binding [of e a]) simp_all
  then show ?thesis by simp
qed

text \<open>The loop with its accumulator and previous key, in closed form.\<close>

lemma account_weight_eq:
  "account_weight acc msg prev w ss =
   (if sorted_wrt (<) ((case prev of None \<Rightarrow> [] | Some p \<Rightarrow> [p]) @ map public_key ss) \<and>
       list_all (\<lambda>s. verify_sig_ed25519 (public_key s) msg (signature s)) ss
    then Inr (w + sum_list (map (\<lambda>s. signer_weight acc (public_key s)) ss))
    else Inl InvalidAuthorization)"
proof (induction ss arbitrary: prev w)
  case Nil
  then show ?case by (simp split: option.split)
next
  case (Cons s ss)
  have "sorted_wrt (<) (public_key s # map public_key ss) \<Longrightarrow> p < public_key s \<Longrightarrow>
        sorted_wrt (<) (p # public_key s # map public_key ss)" for p
    by (auto intro: less_trans)
  with Cons.IH show ?case
    by (auto simp: not_le add.assoc split: option.split)
qed

section \<open>Account verification against its contract\<close>

text \<open>
  The account loop (\<open>for sig in sigs\<close> with the previous key and the running weight)
  computes exactly its declarative contract: it accepts iff the keys strictly increase and
  every signature is valid, and then returns the sum of the signers' weights.
\<close>

lemma account_weight_refines_spec:
  "account_weight acc msg None 0 ss = account_weight_spec acc msg ss"
  by (simp add: account_weight_eq account_weight_spec_def)

text \<open>
  Hence an account proof verifies iff the account exists, its signatures' keys strictly
  increase, each signature was made over the message by its key, and the signers' weights
  reach the account's medium threshold.
\<close>

lemma verify_account_signatures_iff:
  "verify_account_signatures e a msg = Inr () \<longleftrightarrow>
   (\<exists>acc. accounts e (account_id a) = Some acc \<and> sorted_wrt (<) (map public_key (signatures a)) \<and>
      list_all (\<lambda>s. signature s = SignedBy (public_key s) msg) (signatures a) \<and>
      medium_threshold acc \<le> sum_list (map (\<lambda>s. signer_weight acc (public_key s)) (signatures a)))"
  by (auto simp: verify_account_signatures_def result_simps account_weight_refines_spec
      account_weight_spec_def verify_sig_ed25519_def check_def split: if_splits)

end
