(* ===== verification/Auth.thy ===== *)
theory Auth
  imports Host
begin

text \<open>
  The nonce ledger, src/src/auth.rs, and the storage layout it shares with lib.rs
  (\<open>DataKey\<close>). The contract's persistent data is a map from \<open>DataKey\<close> to host values;
  \<open>get_nonce\<close>, \<open>set_nonce\<close> and \<open>verify_and_consume_nonce\<close> read and write the
  \<open>Nonce(who)\<close> entries. The invariant \<open>store_wf\<close> says every entry holds a value of the
  type its key is read at; under it \<open>get_nonce\<close> never aborts. The lemmas give the
  behaviour of \<open>verify_and_consume_nonce\<close> on every branch, the lookup-after-update laws
  of the ledger, the absence of replay, and the count of a run of consumptions.
\<close>

section \<open>Contract data\<close>

text \<open>\<open>DataKey\<close> (lib.rs): \<open>Nonce(Identifier)\<close> and \<open>Token\<close>.\<close>
datatype datakey = Nonce ident | Token

text \<open>The host values stored under a key: an \<open>i64\<close> nonce, or the token contract's id.\<close>
datatype sval = SI64 i64 | SBytes bytes

type_synonym store = "datakey \<rightharpoonup> sval"

text \<open>\<open>e.data().get::<DataKey, i64>(key)\<close>: absent, or present and converted (which fails
  on a value of another type).\<close>
definition data_get_i64 :: "store \<Rightarrow> datakey \<Rightarrow> i64 result option" where
  "data_get_i64 st k =
     map_option (\<lambda>v. case v of SI64 n \<Rightarrow> Inr n | SBytes _ \<Rightarrow> Inl ConversionError) (st k)"

fun value_fits :: "datakey \<Rightarrow> sval \<Rightarrow> bool" where
  "value_fits (Nonce _) v = (case v of SI64 _ \<Rightarrow> True | SBytes _ \<Rightarrow> False)"
| "value_fits Token v = (case v of SBytes _ \<Rightarrow> True | SI64 _ \<Rightarrow> False)"

definition store_wf :: "store \<Rightarrow> bool" where
  "store_wf st \<longleftrightarrow> (\<forall>k \<in> dom st. value_fits k (the (st k)))"

section \<open>The nonce ledger (auth.rs)\<close>

text \<open>\<open>get_nonce\<close>: \<open>.get(key).unwrap_or_else(|| Ok(0)).unwrap()\<close>.\<close>
definition get_nonce :: "store \<Rightarrow> ident \<Rightarrow> i64 result" where
  "get_nonce st who = (case data_get_i64 st (Nonce who) of None \<Rightarrow> Inr 0 | Some r \<Rightarrow> r)"

definition set_nonce :: "store \<Rightarrow> ident \<Rightarrow> i64 \<Rightarrow> store" where
  "set_nonce st who n = st(Nonce who \<mapsto> SI64 n)"

text \<open>
  \<open>verify_and_consume_nonce\<close>: an \<open>Invoker\<close> proof only needs the claimed nonce to be
  zero and writes nothing; a signed proof needs the claimed nonce to equal the stored
  one, and then stores its successor (\<open>nonce + 1\<close> on \<open>i64\<close>).
\<close>

fun verify_and_consume_nonce :: "env \<Rightarrow> store \<Rightarrow> signature \<Rightarrow> i64 \<Rightarrow> store result" where
  "verify_and_consume_nonce e st Invoker n =
     (if 0 \<noteq> n then Inl IncorrectNonceForInvoker else Inr st)"
| "verify_and_consume_nonce e st s n =
     (let who = sig_identifier e s in
      bind_res (get_nonce st who) (\<lambda>cur.
        if n \<noteq> cur then Inl IncorrectNonce else Inr (set_nonce st who (n + 1))))"

section \<open>Storage lemmas\<close>

lemma store_wf_empty [simp]: "store_wf Map.empty"
  by (simp add: store_wf_def)

lemma store_wf_upd [simp]:
  "store_wf (st(k \<mapsto> v)) \<longleftrightarrow> value_fits k v \<and> store_wf (st(k := None))"
  by (auto simp: store_wf_def)

lemma store_wf_del: "store_wf st \<Longrightarrow> store_wf (st(k := None))"
  by (simp add: store_wf_def)

lemma store_wf_set_nonce [simp]: "store_wf st \<Longrightarrow> store_wf (set_nonce st who n)"
  by (simp add: set_nonce_def store_wf_del)

lemma get_nonce_set_nonce [simp]:
  "get_nonce (set_nonce st who n) who' = (if who' = who then Inr n else get_nonce st who')"
  by (simp add: get_nonce_def set_nonce_def data_get_i64_def)

lemma set_nonce_commute:
  "who \<noteq> who' \<Longrightarrow> set_nonce (set_nonce st who n) who' n' = set_nonce (set_nonce st who' n') who n"
  by (simp add: set_nonce_def fun_upd_twist)

lemma get_nonce_absent: "st (Nonce who) = None \<Longrightarrow> get_nonce st who = Inr 0"
  by (simp add: get_nonce_def data_get_i64_def)

lemma get_nonce_wf:
  assumes "store_wf st"
  shows "\<exists>n. get_nonce st who = Inr n"
proof (cases "st (Nonce who)")
  case None
  then show ?thesis by (simp add: get_nonce_absent)
next
  case (Some v)
  with assms have "value_fits (Nonce who) v"
    by (force simp: store_wf_def)
  with Some show ?thesis
    by (cases v) (simp_all add: get_nonce_def data_get_i64_def)
qed

lemma store_wf_Token: "store_wf st \<Longrightarrow> st Token = Some v \<Longrightarrow> \<exists>a. v = SBytes a"
  by (cases v) (force simp: store_wf_def)+

lemma get_nonce_no_conv: "store_wf st \<Longrightarrow> get_nonce st who \<noteq> Inl ConversionError"
  using get_nonce_wf [of st who] by auto

lemma get_nonce_other_key:
  "(\<And>who. st' (Nonce who) = st (Nonce who)) \<Longrightarrow> get_nonce st' = get_nonce st"
  by (simp add: get_nonce_def data_get_i64_def fun_eq_iff)

section \<open>Behaviour of verify_and_consume_nonce\<close>

lemma vacn_signed_eq:
  "s \<noteq> Invoker \<Longrightarrow> verify_and_consume_nonce e st s n =
     bind_res (get_nonce st (sig_identifier e s)) (\<lambda>cur.
       if n \<noteq> cur then Inl IncorrectNonce else Inr (set_nonce st (sig_identifier e s) (n + 1)))"
  by (cases s) (simp_all add: Let_def cong: if_cong)

lemma vacn_signed_Inr:
  "s \<noteq> Invoker \<Longrightarrow> verify_and_consume_nonce e st s n = Inr st' \<longleftrightarrow>
   get_nonce st (sig_identifier e s) = Inr n \<and> st' = set_nonce st (sig_identifier e s) (n + 1)"
  by (auto simp: vacn_signed_eq result_simps)

lemma vacn_Invoker_Inr:
  "verify_and_consume_nonce e st Invoker n = Inr st' \<longleftrightarrow> n = 0 \<and> st' = st"
  by auto

lemma vacn_store_wf:
  "verify_and_consume_nonce e st s n = Inr st' \<Longrightarrow> store_wf st \<Longrightarrow> store_wf st'"
  by (cases "s = Invoker") (auto simp: vacn_signed_Inr split: if_splits)

lemmas vacn_Inr_iffs = vacn_signed_Inr vacn_Invoker_Inr

lemma vacn_no_conv:
  assumes "store_wf st"
  shows "verify_and_consume_nonce e st s n \<noteq> Inl ConversionError"
proof (cases "s = Invoker")
  case True
  then show ?thesis by simp
next
  case False
  show ?thesis
    unfolding vacn_signed_eq [OF False]
    by (intro bind_res_neq_Inl get_nonce_no_conv assms) simp
qed

lemma vacn_Token:
  "verify_and_consume_nonce e st s n = Inr st' \<Longrightarrow> st' Token = st Token"
  by (cases "s = Invoker") (auto simp: vacn_signed_Inr set_nonce_def split: if_splits)

lemma vacn_signed_nonce:
  assumes "s \<noteq> Invoker" and "verify_and_consume_nonce e st s n = Inr st'"
  shows "get_nonce st (sig_identifier e s) = Inr n"
    and "get_nonce st' who = (if who = sig_identifier e s then Inr (n + 1) else get_nonce st who)"
  using assms by (simp_all add: vacn_signed_Inr)

lemma word_succ_neq [simp]: "(n :: 'a::len word) + 1 \<noteq> n"
  by simp

section \<open>Properties of the nonce ledger\<close>

text \<open>
  C6. Lookup after consumption: a signed proof accepted with claimed nonce \<open>n\<close> found
  \<open>n\<close> stored for its identity, leaves \<open>n + 1\<close> stored, and changes no other identity's
  nonce.
\<close>

theorem vacn_consume_roundtrip:
  assumes "s \<noteq> Invoker" and "verify_and_consume_nonce e st s n = Inr st'"
  shows "get_nonce st (sig_identifier e s) = Inr n \<and>
         get_nonce st' (sig_identifier e s) = Inr (n + 1) \<and>
         (\<forall>who. who \<noteq> sig_identifier e s \<longrightarrow> get_nonce st' who = get_nonce st who)"
  using vacn_signed_nonce [OF assms] by simp

text \<open>
  C5. No replay: once a signed proof has been accepted with nonce \<open>n\<close>, presenting it
  again with the same nonce is rejected with \<open>IncorrectNonce\<close>.
\<close>

theorem vacn_no_replay:
  assumes "s \<noteq> Invoker" and "verify_and_consume_nonce e st s n = Inr st'"
  shows "verify_and_consume_nonce e st' s n = Inl IncorrectNonce"
proof -
  have "get_nonce st' (sig_identifier e s) = Inr (n + 1)"
    using vacn_signed_nonce(2) [OF assms] by simp
  then show ?thesis by (simp add: vacn_signed_eq [OF assms(1)])
qed

text \<open>
  C7. A signed proof whose claimed nonce differs from the stored one is rejected with
  \<open>IncorrectNonce\<close>; an invoker proof with a nonzero nonce is rejected with
  \<open>IncorrectNonceForInvoker\<close>. Nothing is written in either case (the result is an error).
\<close>

theorem vacn_wrong_nonce_rejected:
  "(s \<noteq> Invoker \<and> get_nonce st (sig_identifier e s) = Inr cur \<and> n \<noteq> cur \<longrightarrow>
      verify_and_consume_nonce e st s n = Inl IncorrectNonce) \<and>
   (n \<noteq> 0 \<longrightarrow> verify_and_consume_nonce e st Invoker n = Inl IncorrectNonceForInvoker)"
  by (auto simp: vacn_signed_eq)

text \<open>
  C8. Monotonic count: a run of accepted signed proofs for one identity advances its
  stored nonce by exactly the number of proofs (on \<open>i64\<close>, with wrap-around).
\<close>

theorem vacn_run_count:
  assumes "\<forall>(s, n) \<in> set xs. s \<noteq> Invoker \<and> sig_identifier e s = who"
    and "run_res (\<lambda>st (s, n). verify_and_consume_nonce e st s n) st xs = Inr st'"
    and "get_nonce st who = Inr c"
  shows "get_nonce st' who = Inr (c + of_nat (length xs))"
  using assms
proof (induction xs arbitrary: st c)
  case Nil
  then show ?case by simp
next
  case (Cons x xs)
  obtain s n where x: "x = (s, n)" by fastforce
  with Cons.prems obtain st1 where s: "s \<noteq> Invoker" "sig_identifier e s = who"
    and st1: "verify_and_consume_nonce e st s n = Inr st1"
    and rest: "run_res (\<lambda>st (s, n). verify_and_consume_nonce e st s n) st1 xs = Inr st'"
    by (auto simp: result_simps)
  from vacn_signed_nonce [OF s(1) st1] s(2) Cons.prems(3)
  have "n = c" and "get_nonce st1 who = Inr (c + 1)" by auto
  with Cons.IH [OF _ rest] Cons.prems(1) have "get_nonce st' who = Inr (c + 1 + of_nat (length xs))"
    by auto
  then show ?case by (simp add: x add.assoc add.commute)
qed

text \<open>
  C9. Implicit proofs never advance state: a run of invoker proofs that is accepted
  claimed nonce zero every time and leaves the store exactly as it was.
\<close>

theorem vacn_invoker_run_unchanged:
  "run_res (\<lambda>st n. verify_and_consume_nonce e st Invoker n) st ns = Inr st' \<Longrightarrow>
   st' = st \<and> (\<forall>n \<in> set ns. n = 0)"
  by (induction ns arbitrary: st) (auto simp: result_simps split: if_splits)

end
