(* ===== verification/Token.thy ===== *)
theory Token
  imports Host
begin

text \<open>
  The external asset ledger (the token contract whose wasm the crate imports,
  \<open>token/soroban_token_spec.wasm\<close>; its code is not under src/). Modelled from the
  interface of spec section 6: balances and allowances per identity, and the two
  operations the contract calls, \<open>xfer_from\<close> and \<open>xfer\<close>, each taking the caller's
  authorization (always \<open>Invoker\<close> here, so the caller is the contract itself) and a
  nonce that must be zero for that form. A transfer fails on a nonzero invoker nonce,
  a negative amount, too small an allowance, or too small a balance; the failure is a
  \<open>token_error\<close>.
\<close>

record token_state =
  balance :: "ident \<Rightarrow> int"
  allowance :: "ident \<Rightarrow> ident \<Rightarrow> int"

definition receive_balance :: "ident \<Rightarrow> int \<Rightarrow> token_state \<Rightarrow> token_state" where
  "receive_balance who amount ts = ts\<lparr>balance := (balance ts)(who := balance ts who + amount)\<rparr>"

definition spend_balance :: "ident \<Rightarrow> int \<Rightarrow> token_state \<Rightarrow> token_error + token_state" where
  "spend_balance who amount ts =
     (if balance ts who < amount then Inl InsufficientBalance
      else Inr (ts\<lparr>balance := (balance ts)(who := balance ts who - amount)\<rparr>))"

definition spend_allowance :: "ident \<Rightarrow> ident \<Rightarrow> int \<Rightarrow> token_state \<Rightarrow> token_error + token_state" where
  "spend_allowance from spender amount ts =
     (if allowance ts from spender < amount then Inl InsufficientAllowance
      else Inr (ts\<lparr>allowance := (allowance ts)(from := (allowance ts from)(spender :=
                  allowance ts from spender - amount))\<rparr>))"

text \<open>\<open>xfer_from(Invoker, nonce, from, to, amount)\<close> called by \<open>spender\<close>.\<close>
definition xfer_from ::
  "ident \<Rightarrow> int \<Rightarrow> ident \<Rightarrow> ident \<Rightarrow> int \<Rightarrow> token_state \<Rightarrow> token_error + token_state" where
  "xfer_from spender nonce from to amount ts =
     bind_res (check (nonce = 0) TokenBadNonce) (\<lambda>_.
     bind_res (check (0 \<le> amount) NegativeAmount) (\<lambda>_.
     bind_res (spend_allowance from spender amount ts) (\<lambda>ts1.
     bind_res (spend_balance from amount ts1) (\<lambda>ts2.
     Inr (receive_balance to amount ts2)))))"

text \<open>\<open>xfer(Invoker, nonce, to, amount)\<close> called by \<open>from\<close>.\<close>
definition xfer :: "ident \<Rightarrow> int \<Rightarrow> ident \<Rightarrow> int \<Rightarrow> token_state \<Rightarrow> token_error + token_state" where
  "xfer from nonce to amount ts =
     bind_res (check (nonce = 0) TokenBadNonce) (\<lambda>_.
     bind_res (check (0 \<le> amount) NegativeAmount) (\<lambda>_.
     bind_res (spend_balance from amount ts) (\<lambda>ts1.
     Inr (receive_balance to amount ts1))))"

text \<open>
  The two token entry points the tests call to prepare a contest (the contract itself never
  calls them): \<open>mint\<close> credits the recipient, \<open>approve\<close> sets the spender's allowance to
  the amount (replacing, not adding to, the previous one). Their own authorization (the
  admin's invoker proof for \<open>mint\<close>, the owner's signature and token nonce for
  \<open>approve\<close>) is not modelled: the tests always authorize them correctly.
\<close>

definition mint :: "ident \<Rightarrow> int \<Rightarrow> token_state \<Rightarrow> token_state" where
  "mint to amount ts = receive_balance to amount ts"

definition approve :: "ident \<Rightarrow> ident \<Rightarrow> int \<Rightarrow> token_state \<Rightarrow> token_state" where
  "approve from spender amount ts =
     ts\<lparr>allowance := (allowance ts)(from := (allowance ts from)(spender := amount))\<rparr>"

section \<open>Behaviour of the transfers\<close>

lemma xfer_from_Inr_iff [result_simps]:
  "xfer_from spender nonce from to amount ts = Inr ts' \<longleftrightarrow>
   nonce = 0 \<and> 0 \<le> amount \<and> amount \<le> allowance ts from spender \<and> amount \<le> balance ts from \<and>
   ts' = ts\<lparr>allowance := (allowance ts)(from := (allowance ts from)(spender :=
                allowance ts from spender - amount)),
            balance := (\<lambda>x. balance ts x - (if x = from then amount else 0)
                              + (if x = to then amount else 0))\<rparr>"
  by (auto simp: xfer_from_def spend_allowance_def spend_balance_def receive_balance_def
      not_less fun_eq_iff)

lemma xfer_Inr_iff [result_simps]:
  "xfer from nonce to amount ts = Inr ts' \<longleftrightarrow>
   nonce = 0 \<and> 0 \<le> amount \<and> amount \<le> balance ts from \<and>
   ts' = ts\<lparr>balance := (\<lambda>x. balance ts x - (if x = from then amount else 0)
                              + (if x = to then amount else 0))\<rparr>"
  by (auto simp: xfer_def spend_balance_def receive_balance_def not_less fun_eq_iff)

end
