(* ===== verification/ByteBattle.thy ===== *)
theory ByteBattle
  imports Auth Token
begin

text \<open>
  The contest orchestrator, src/src/lib.rs: \<open>initialize\<close>, \<open>battle\<close>, \<open>nonce\<close>,
  \<open>token\<close> and the helper \<open>get_token\<close>. The state one invocation sees is a \<open>world\<close>:
  this contract's data (the \<open>DataKey\<close> store of Auth) and the token contracts deployed
  on the ledger, by contract id. \<open>battle\<close> is written as the source runs it, in four
  phases: authorization (\<open>battle_auth\<close>: read both nonces, verify and consume A, verify
  and consume B), escrow (two \<open>xfer_from\<close> calls into the contract's custody), outcome
  (\<open>battle_outcome\<close>: compare indices and tie-break keys) and payout (one \<open>xfer\<close> of
  twice the stake). The outcome is modelled exactly as written: both the second key
  and the second index are computed from \<open>signer1_id\<close>.
\<close>

record world =
  data :: store
  tokens :: "bytes \<rightharpoonup> token_state"

type_synonym battle_ret = "bytes \<times> bytes \<times> u32 \<times> u32"

text \<open>\<open>Identifier::Contract(e.current_contract())\<close>: the contract's own identity.\<close>
abbreviation self_ident :: "env \<Rightarrow> ident" where
  "self_ident e \<equiv> Contract (current_contract e)"

text \<open>The start index \<open>(e.ledger().timestamp() % 32) as u32\<close>.\<close>
abbreviation base_index :: "env \<Rightarrow> u32" where
  "base_index e \<equiv> ucast (timestamp e mod 32)"

section \<open>Configuration\<close>

text \<open>\<open>e.data().get::<DataKey, BytesN<32>>(key)\<close>.\<close>
definition data_get_bytes :: "store \<Rightarrow> datakey \<Rightarrow> bytes result option" where
  "data_get_bytes st k =
     map_option (\<lambda>v. case v of SBytes b \<Rightarrow> Inr b | SI64 _ \<Rightarrow> Inl ConversionError) (st k)"

text \<open>\<open>get_token\<close>: \<open>e.data().get(DataKey::Token).unwrap().unwrap()\<close>.\<close>
definition get_token :: "store \<Rightarrow> bytes result" where
  "get_token st = (case data_get_bytes st Token of None \<Rightarrow> Inl Uninitialized | Some r \<Rightarrow> r)"

text \<open>\<open>initialize\<close>: panics if \<open>DataKey::Token\<close> is present, else stores the address.\<close>
definition initialize :: "store \<Rightarrow> bytes \<Rightarrow> store result" where
  "initialize st token_address =
     (if st Token \<noteq> None then Inl AlreadyInitialized
      else Inr (st(Token \<mapsto> SBytes token_address)))"

text \<open>The two read-only entry points.\<close>
definition nonce :: "store \<Rightarrow> ident \<Rightarrow> i64 result" where
  "nonce st user = get_nonce st user"

definition token :: "store \<Rightarrow> bytes result" where
  "token st = get_token st"

section \<open>Calls into the token contract\<close>

text \<open>
  A call through \<open>token::Client\<close>: the host finds the contract with the stored id
  (trapping when there is none) and runs the operation on its state; a failing
  operation aborts the whole invocation.
\<close>
definition call_token ::
  "world \<Rightarrow> bytes \<Rightarrow> (token_state \<Rightarrow> token_error + token_state) \<Rightarrow> world result" where
  "call_token w addr f =
     bind_res (unwrap NoSuchContract (tokens w addr)) (\<lambda>ts.
       case f ts of
         Inl te \<Rightarrow> Inl (TokenFailed te)
       | Inr ts' \<Rightarrow> Inr (w\<lparr>tokens := (tokens w)(addr \<mapsto> ts')\<rparr>))"

section \<open>battle\<close>

text \<open>Lines 48--66: read both nonces, then verify and consume A, then verify and consume B.\<close>
definition battle_auth :: "env \<Rightarrow> store \<Rightarrow> signature \<Rightarrow> signature \<Rightarrow> int \<Rightarrow> store result" where
  "battle_auth e st player1_sig player2_sig amount =
     (let signer1_id = sig_identifier e player1_sig;
          signer2_id = sig_identifier e player2_sig in
      bind_res (get_nonce st signer1_id) (\<lambda>p1_nonce.
      bind_res (get_nonce st signer2_id) (\<lambda>p2_nonce.
      bind_res (verify e player1_sig ''battle''
                  [RId signer1_id, RI64 p1_nonce, RId signer2_id, RBigInt amount]) (\<lambda>_.
      bind_res (verify_and_consume_nonce e st player1_sig p1_nonce) (\<lambda>st1.
      bind_res (verify e player2_sig ''battle''
                  [RId signer2_id, RI64 p2_nonce, RId signer1_id, RBigInt amount]) (\<lambda>_.
      verify_and_consume_nonce e st1 player2_sig p2_nonce))))))"

text \<open>The \<open>match\<close> of lines 86--101: the key bytes of an identity, and the index bias.\<close>
fun player_key :: "env \<Rightarrow> ident \<Rightarrow> u32 \<Rightarrow> bytes \<times> u32" where
  "player_key e (Account a) i = (serialize_account e a, i + 16)"
| "player_key e (Contract k) i = (k, i)"
| "player_key e (Ed25519 k) i = (k, i)"

text \<open>
  Lines 84--104: both indices start at \<open>timestamp % 32\<close>; both keys and both biases are
  taken from \<open>signer1_id\<close>, as the source does; the winner is \<open>signer1\<close> when its byte is
  strictly greater, else \<open>signer2\<close>.
\<close>
definition battle_outcome :: "env \<Rightarrow> ident \<Rightarrow> ident \<Rightarrow> (bytes \<times> bytes \<times> u32 \<times> u32 \<times> ident) result" where
  "battle_outcome e signer1_id signer2_id =
     (let b = (ucast (timestamp e mod 32) :: u32);
          (player1_key, player1_byte) = player_key e signer1_id b;
          (player2_key, player2_byte) = player_key e signer1_id b in
      bind_res (unwrap IndexOutOfBounds (bytes_get player1_key player1_byte)) (\<lambda>x1.
      bind_res (unwrap IndexOutOfBounds (bytes_get player2_key player2_byte)) (\<lambda>x2.
      Inr (player1_key, player2_key, player1_byte, player2_byte,
           if x2 < x1 then signer1_id else signer2_id))))"

text \<open>Lines 42--126: the whole entry point.\<close>
definition battle ::
  "env \<Rightarrow> world \<Rightarrow> signature \<Rightarrow> signature \<Rightarrow> int \<Rightarrow> (world \<times> battle_ret) result" where
  "battle e w player1_sig player2_sig amount =
     (let signer1_id = sig_identifier e player1_sig;
          signer2_id = sig_identifier e player2_sig;
          me = Contract (current_contract e) in
      bind_res (battle_auth e (data w) player1_sig player2_sig amount) (\<lambda>st.
      bind_res (get_token st) (\<lambda>addr.
      bind_res (call_token (w\<lparr>data := st\<rparr>) addr (xfer_from me 0 signer1_id me amount)) (\<lambda>w2.
      bind_res (call_token w2 addr (xfer_from me 0 signer2_id me amount)) (\<lambda>w3.
      bind_res (battle_outcome e signer1_id signer2_id) (\<lambda>(k1, k2, i1, i2, winner).
      bind_res (call_token w3 addr (xfer me 0 winner (amount * 2))) (\<lambda>w4.
      Inr (w4, (k1, k2, i1, i2)))))))))"

section \<open>Lemmas\<close>

lemma get_token_upd_Token [simp]: "get_token (st(Token \<mapsto> SBytes b)) = Inr b"
  by (simp add: get_token_def data_get_bytes_def)

lemma get_token_absent [simp]: "st Token = None \<Longrightarrow> get_token st = Inl Uninitialized"
  by (simp add: get_token_def data_get_bytes_def)

lemma get_token_cong: "st' Token = st Token \<Longrightarrow> get_token st' = get_token st"
  by (simp add: get_token_def data_get_bytes_def)

lemma call_token_Inr [result_simps]:
  "call_token w addr f = Inr w' \<longleftrightarrow>
   (\<exists>ts ts'. tokens w addr = Some ts \<and> f ts = Inr ts' \<and> w' = w\<lparr>tokens := (tokens w)(addr \<mapsto> ts')\<rparr>)"
  by (cases "tokens w addr"; cases "f (the (tokens w addr))") (auto simp: call_token_def)

lemma call_token_InrE:
  assumes "call_token w addr f = Inr w'"
  obtains ts ts' where "tokens w addr = Some ts" and "f ts = Inr ts'"
    and "w' = w\<lparr>tokens := (tokens w)(addr \<mapsto> ts')\<rparr>"
  using assms unfolding call_token_def
  by (cases "tokens w addr"; cases "f (the (tokens w addr))") auto

lemma call_token_data [simp]: "call_token w addr f = Inr w' \<Longrightarrow> data w' = data w"
  by (auto simp: call_token_Inr)

lemma verify_Inl: "verify e s name args = Inl err \<Longrightarrow> err = InvalidAuthorization"
proof -
  have acc: "account_weight acc msg prev w ss = Inl err \<Longrightarrow> err = InvalidAuthorization"
    for acc msg prev w ss
    by (induction ss arbitrary: prev w) (auto split: if_splits)
  show "verify e s name args = Inl err \<Longrightarrow> err = InvalidAuthorization"
    by (cases s) (auto simp: check_def verify_account_signatures_def result_simps
        dest: acc split: if_splits)
qed

lemma battle_Inr:
  "battle e w s1 s2 amount = Inr (w', r) \<longleftrightarrow>
   (\<exists>st addr w2 w3 k1 k2 i1 i2 win.
      battle_auth e (data w) s1 s2 amount = Inr st \<and> get_token st = Inr addr \<and>
      call_token (w\<lparr>data := st\<rparr>) addr (xfer_from (Contract (current_contract e)) 0
        (sig_identifier e s1) (Contract (current_contract e)) amount) = Inr w2 \<and>
      call_token w2 addr (xfer_from (Contract (current_contract e)) 0
        (sig_identifier e s2) (Contract (current_contract e)) amount) = Inr w3 \<and>
      battle_outcome e (sig_identifier e s1) (sig_identifier e s2) = Inr (k1, k2, i1, i2, win) \<and>
      call_token w3 addr (xfer (Contract (current_contract e)) 0 win (amount * 2)) = Inr w' \<and>
      r = (k1, k2, i1, i2))"
  unfolding battle_def Let_def
  by (simp only: bind_res_eq_Inr split_paired_Ex prod.case sum.inject prod.inject) blast

lemma battle_outcome_Inr:
  "battle_outcome e signer1_id signer2_id = Inr r \<longleftrightarrow>
   (\<exists>x. bytes_get (fst (player_key e signer1_id (ucast (timestamp e mod 32)))) 
                   (snd (player_key e signer1_id (ucast (timestamp e mod 32)))) = Some x \<and>
        r = (fst (player_key e signer1_id (ucast (timestamp e mod 32))),
             fst (player_key e signer1_id (ucast (timestamp e mod 32))),
             snd (player_key e signer1_id (ucast (timestamp e mod 32))),
             snd (player_key e signer1_id (ucast (timestamp e mod 32))), signer2_id))"
  by (auto simp: battle_outcome_def Let_def result_simps split: prod.splits)

lemma battle_auth_Inr_facts:
  assumes "battle_auth e st s1 s2 amount = Inr st'"
  shows "\<exists>n1 n2. get_nonce st (sig_identifier e s1) = Inr n1 \<and> get_nonce st (sig_identifier e s2) = Inr n2 \<and>
     verify e s1 ''battle''
       [RId (sig_identifier e s1), RI64 n1, RId (sig_identifier e s2), RBigInt amount] = Inr () \<and>
     verify e s2 ''battle''
       [RId (sig_identifier e s2), RI64 n2, RId (sig_identifier e s1), RBigInt amount] = Inr () \<and>
     (s1 \<noteq> Invoker \<longrightarrow> get_nonce st' (sig_identifier e s1) = Inr (n1 + 1)) \<and>
     (s2 \<noteq> Invoker \<longrightarrow> get_nonce st' (sig_identifier e s2) = Inr (n2 + 1)) \<and>
     (s1 \<noteq> Invoker \<and> s2 \<noteq> Invoker \<longrightarrow> sig_identifier e s1 \<noteq> sig_identifier e s2)"
  using assms
  by (cases "s1 = Invoker"; cases "s2 = Invoker")
     (auto simp: battle_auth_def Let_def result_simps vacn_Inr_iffs split: if_splits)

lemma battle_auth_Token:
  "battle_auth e st s1 s2 amount = Inr st' \<Longrightarrow> st' Token = st Token"
  by (auto simp: battle_auth_def Let_def result_simps dest!: vacn_Token)

text \<open>
  What a successful battle did, on the token ledger: the two escrow transfers, then the
  payout, all on the token contract named by the stored address, and nothing else.
\<close>

lemma battle_settlement:
  assumes "battle e w s1 s2 amount = Inr (w', r)"
  shows "\<exists>st addr tk tk1 tk2 tk3.
     battle_auth e (data w) s1 s2 amount = Inr st \<and> data w' = st \<and>
     get_token (data w) = Inr addr \<and> tokens w addr = Some tk \<and>
     xfer_from (self_ident e) 0 (sig_identifier e s1) (self_ident e) amount tk = Inr tk1 \<and>
     xfer_from (self_ident e) 0 (sig_identifier e s2) (self_ident e) amount tk1 = Inr tk2 \<and>
     xfer (self_ident e) 0 (sig_identifier e s2) (amount * 2) tk2 = Inr tk3 \<and>
     tokens w' = (tokens w)(addr \<mapsto> tk3) \<and>
     r = (fst (player_key e (sig_identifier e s1) (base_index e)),
          fst (player_key e (sig_identifier e s1) (base_index e)),
          snd (player_key e (sig_identifier e s1) (base_index e)),
          snd (player_key e (sig_identifier e s1) (base_index e)))"
proof -
  from assms obtain st addr w2 w3 k1 k2 i1 i2 win where
    auth: "battle_auth e (data w) s1 s2 amount = Inr st" and
    tok: "get_token st = Inr addr" and
    c1: "call_token (w\<lparr>data := st\<rparr>) addr
           (xfer_from (self_ident e) 0 (sig_identifier e s1) (self_ident e) amount) = Inr w2" and
    c2: "call_token w2 addr
           (xfer_from (self_ident e) 0 (sig_identifier e s2) (self_ident e) amount) = Inr w3" and
    out: "battle_outcome e (sig_identifier e s1) (sig_identifier e s2) = Inr (k1, k2, i1, i2, win)" and
    c3: "call_token w3 addr (xfer (self_ident e) 0 win (amount * 2)) = Inr w'" and
    r: "r = (k1, k2, i1, i2)"
    unfolding battle_Inr by blast
  from out have win: "win = sig_identifier e s2"
    and k: "(k1, k2, i1, i2) = (fst (player_key e (sig_identifier e s1) (base_index e)),
          fst (player_key e (sig_identifier e s1) (base_index e)),
          snd (player_key e (sig_identifier e s1) (base_index e)),
          snd (player_key e (sig_identifier e s1) (base_index e)))"
    by (auto simp: battle_outcome_Inr)
  from auth tok have tok0: "get_token (data w) = Inr addr"
    using get_token_cong battle_auth_Token by metis
  from c1 obtain tk tk1 where tk: "tokens w addr = Some tk"
    and x1: "xfer_from (self_ident e) 0 (sig_identifier e s1) (self_ident e) amount tk = Inr tk1"
    and w2: "w2 = w\<lparr>data := st, tokens := (tokens w)(addr \<mapsto> tk1)\<rparr>"
    by (rule call_token_InrE) simp_all
  from c2 obtain tk1' tk2 where "tokens w2 addr = Some tk1'"
    and x2': "xfer_from (self_ident e) 0 (sig_identifier e s2) (self_ident e) amount tk1' = Inr tk2"
    and w3': "w3 = w2\<lparr>tokens := (tokens w2)(addr \<mapsto> tk2)\<rparr>"
    by (rule call_token_InrE)
  with w2 have x2: "xfer_from (self_ident e) 0 (sig_identifier e s2) (self_ident e) amount tk1 = Inr tk2"
    and w3: "w3 = w\<lparr>data := st, tokens := (tokens w)(addr \<mapsto> tk2)\<rparr>"
    by simp_all
  from c3 obtain tk2' tk3 where "tokens w3 addr = Some tk2'"
    and x3': "xfer (self_ident e) 0 win (amount * 2) tk2' = Inr tk3"
    and w4': "w' = w3\<lparr>tokens := (tokens w3)(addr \<mapsto> tk3)\<rparr>"
    by (rule call_token_InrE)
  with w3 win have x3: "xfer (self_ident e) 0 (sig_identifier e s2) (amount * 2) tk2 = Inr tk3"
    and w4: "data w' = st" "tokens w' = (tokens w)(addr \<mapsto> tk3)"
    by simp_all
  show ?thesis
    using auth tok0 tk x1 x2 x3 w4 r k by blast
qed

lemma base_index_lt32: "unat (base_index e) < 32"
  by (simp add: unat_ucast_mod32)

lemma player_key_index:
  "unat (snd (player_key e who (base_index e))) =
   unat (timestamp e) mod 32 + (case who of Account _ \<Rightarrow> 16 | _ \<Rightarrow> 0)"
  using base_index_lt32 [of e]
  by (cases who) (simp_all add: unat_plus16_small unat_ucast_mod32)

section \<open>Properties of battle\<close>

text \<open>
  C1. The outcome ignores player 2's identity: both tie-break keys and both compare
  indices come from player 1, so the compared bytes are one and the same, "strictly
  greater" never holds, and the winner is always player 2.
\<close>

theorem battle_outcome_player2_wins:
  "battle_outcome e signer1_id signer2_id = Inr (k1, k2, i1, i2, winner) \<Longrightarrow>
   winner = signer2_id \<and> k1 = k2 \<and> i1 = i2"
  by (auto simp: battle_outcome_Inr)

text \<open>
  C3. Mismatched terms are rejected: if player 1's proof carries a signature over battle
  terms naming another opponent or another amount than the call's, the battle aborts
  with \<open>InvalidAuthorization\<close> before any nonce is written or any funds move.
\<close>

theorem battle_mismatch_rejected:
  assumes wf: "store_wf (data w)"
    and binds: "binding_sig e s1"
    and signed: "verify e s1 ''battle''
                   [RId (sig_identifier e s1), RI64 n, RId other, RBigInt a] = Inr ()"
    and differ: "other \<noteq> sig_identifier e s2 \<or> a \<noteq> amount"
  shows "battle e w s1 s2 amount = Inl InvalidAuthorization"
proof -
  obtain n1 where n1: "get_nonce (data w) (sig_identifier e s1) = Inr n1"
    using get_nonce_wf [OF wf] by blast
  obtain n2 where n2: "get_nonce (data w) (sig_identifier e s2) = Inr n2"
    using get_nonce_wf [OF wf] by blast
  have "verify e s1 ''battle''
          [RId (sig_identifier e s1), RI64 n1, RId (sig_identifier e s2), RBigInt amount] \<noteq> Inr ()"
  proof
    assume "verify e s1 ''battle''
          [RId (sig_identifier e s1), RI64 n1, RId (sig_identifier e s2), RBigInt amount] = Inr ()"
    from verify_binding [OF signed this binds] differ show False by simp
  qed
  then have "verify e s1 ''battle''
          [RId (sig_identifier e s1), RI64 n1, RId (sig_identifier e s2), RBigInt amount] =
        Inl InvalidAuthorization"
    using verify_Inl by (metis (full_types) old.unit.exhaust sumE)
  with n1 n2 have "battle_auth e (data w) s1 s2 amount = Inl InvalidAuthorization"
    by (simp add: battle_auth_def Let_def)
  then show ?thesis by (simp add: battle_def Let_def)
qed

text \<open>
  C4. No replay of a battle: after a successful battle, presenting the same two proofs
  again fails (for any amount), as long as one of them carries a signature: its nonce has
  been advanced, so the terms it signed no longer match the terms the contract rebuilds.
\<close>

theorem battle_no_replay:
  assumes ok: "battle e w s1 s2 amount = Inr (w', r)"
    and binds: "binding_sig e s1 \<or> binding_sig e s2"
  shows "\<forall>x. battle e w' s1 s2 amount' \<noteq> Inr x"
proof (intro allI notI)
  fix x
  assume again: "battle e w' s1 s2 amount' = Inr x"
  obtain w'' r' where again': "battle e w' s1 s2 amount' = Inr (w'', r')"
    using again by (cases x) auto
  from battle_settlement [OF ok] obtain st where
    auth1: "battle_auth e (data w) s1 s2 amount = Inr st" and st: "data w' = st"
    by blast
  from battle_settlement [OF again'] st obtain st' where
    auth2: "battle_auth e st s1 s2 amount' = Inr st'"
    by blast
  from battle_auth_Inr_facts [OF auth1] obtain n1 n2 where
    v1: "verify e s1 ''battle''
           [RId (sig_identifier e s1), RI64 n1, RId (sig_identifier e s2), RBigInt amount] = Inr ()" and
    v2: "verify e s2 ''battle''
           [RId (sig_identifier e s2), RI64 n2, RId (sig_identifier e s1), RBigInt amount] = Inr ()" and
    p1: "s1 \<noteq> Invoker \<longrightarrow> get_nonce st (sig_identifier e s1) = Inr (n1 + 1)" and
    p2: "s2 \<noteq> Invoker \<longrightarrow> get_nonce st (sig_identifier e s2) = Inr (n2 + 1)"
    by blast
  from battle_auth_Inr_facts [OF auth2] obtain m1 m2 where
    g1: "get_nonce st (sig_identifier e s1) = Inr m1" and
    g2: "get_nonce st (sig_identifier e s2) = Inr m2" and
    u1: "verify e s1 ''battle''
           [RId (sig_identifier e s1), RI64 m1, RId (sig_identifier e s2), RBigInt amount'] = Inr ()" and
    u2: "verify e s2 ''battle''
           [RId (sig_identifier e s2), RI64 m2, RId (sig_identifier e s1), RBigInt amount'] = Inr ()"
    by blast
  from binds show False
  proof
    assume b: "binding_sig e s1"
    then have "s1 \<noteq> Invoker" by (auto simp: binding_sig_def)
    with p1 g1 have "m1 = n1 + 1" by simp
    with verify_binding [OF v1 u1 b] show False by simp
  next
    assume b: "binding_sig e s2"
    then have "s2 \<noteq> Invoker" by (auto simp: binding_sig_def)
    with p2 g2 have "m2 = n2 + 1" by simp
    with verify_binding [OF v2 u2 b] show False by simp
  qed
qed


text \<open>
  C10. After a successful initialize, the token entry point returns the address just
  stored, and no identity's nonce has changed.
\<close>

theorem initialize_token_roundtrip:
  "initialize st token_address = Inr st' \<Longrightarrow>
   token st' = Inr token_address \<and> nonce st' = nonce st"
proof -
  assume "initialize st token_address = Inr st'"
  then have st': "st' = st(Token \<mapsto> SBytes token_address)"
    by (simp add: initialize_def split: if_splits)
  have "token st' = Inr token_address"
    unfolding st' by (simp add: token_def)
  moreover have "nonce st' = nonce st"
    unfolding st' by (simp add: nonce_def get_nonce_def data_get_i64_def fun_eq_iff)
  ultimately show ?thesis ..
qed

text \<open>
  C11. Initialization is write-once: once initialize has succeeded, every later
  initialize aborts with AlreadyInitialized (and, being an abort, writes nothing),
  whatever address it is given.
\<close>

theorem initialize_write_once:
  "initialize st token_address = Inr st' \<Longrightarrow> initialize st' other_address = Inl AlreadyInitialized"
  by (auto simp: initialize_def split: if_splits)

text \<open>
  C12. A player cannot battle itself with two signed proofs: when both proofs are signed
  and speak for the same identity, battle fails, since the second proof's nonce was read
  before the first one consumed it.
\<close>

theorem battle_same_signer_fails:
  assumes "s1 \<noteq> Invoker" and "s2 \<noteq> Invoker" and "sig_identifier e s1 = sig_identifier e s2"
  shows "\<forall>x. battle e w s1 s2 amount \<noteq> Inr x"
proof (intro allI notI)
  fix x
  assume "battle e w s1 s2 amount = Inr x"
  then obtain w' r where "battle e w s1 s2 amount = Inr (w', r)"
    by (cases x) auto
  from battle_settlement [OF this] obtain st where "battle_auth e (data w) s1 s2 amount = Inr st"
    by blast
  from battle_auth_Inr_facts [OF this] assms show False by blast
qed

text \<open>
  C13. Symmetry of eligibility: the authorization phase accepts the two proofs in one
  order exactly when it accepts them in the other, and then leaves the same store.
\<close>

theorem battle_auth_symmetric:
  assumes "battle_auth e st s1 s2 amount = Inr st'"
  shows "battle_auth e st s2 s1 amount = Inr st'"
proof (cases "s1 = Invoker"; cases "s2 = Invoker")
  assume "s1 = Invoker" "s2 = Invoker"
  with assms show ?thesis
    by (auto simp: battle_auth_def Let_def result_simps split: if_splits)
next
  assume "s1 = Invoker" "s2 \<noteq> Invoker"
  with assms show ?thesis
    by (auto simp: battle_auth_def Let_def result_simps vacn_signed_Inr split: if_splits)
next
  assume "s1 \<noteq> Invoker" "s2 = Invoker"
  with assms show ?thesis
    by (auto simp: battle_auth_def Let_def result_simps vacn_signed_Inr split: if_splits)
next
  assume "s1 \<noteq> Invoker" "s2 \<noteq> Invoker"
  with assms show ?thesis
    by (auto simp: battle_auth_def Let_def result_simps vacn_signed_Inr set_nonce_commute split: if_splits)
qed

text \<open>
  C14. Escrow before payout: when the token ledger rejects the first escrow transfer, or
  accepts it and rejects the second, battle aborts with that token error; no payout is
  made.
\<close>

theorem battle_escrow_failure:
  assumes auth: "battle_auth e (data w) s1 s2 amount = Inr st"
    and tok: "get_token st = Inr addr" and ledger: "tokens w addr = Some tk"
    and fails: "xfer_from (self_ident e) 0 (sig_identifier e s1) (self_ident e) amount tk = Inl te \<or>
       (\<exists>tk1. xfer_from (self_ident e) 0 (sig_identifier e s1) (self_ident e) amount tk = Inr tk1 \<and>
              xfer_from (self_ident e) 0 (sig_identifier e s2) (self_ident e) amount tk1 = Inl te)"
  shows "battle e w s1 s2 amount = Inl (TokenFailed te)"
  using fails
proof
  assume "xfer_from (self_ident e) 0 (sig_identifier e s1) (self_ident e) amount tk = Inl te"
  with auth tok ledger show ?thesis
    by (simp add: battle_def Let_def call_token_def)
next
  assume "\<exists>tk1. xfer_from (self_ident e) 0 (sig_identifier e s1) (self_ident e) amount tk = Inr tk1 \<and>
              xfer_from (self_ident e) 0 (sig_identifier e s2) (self_ident e) amount tk1 = Inl te"
  with auth tok ledger show ?thesis
    by (auto simp: battle_def Let_def call_token_def)
qed

text \<open>
  C15. The compare index is the ledger time modulo 32, plus 16 when player 1 is an
  account (for both players, since both come from player 1); it is always below 48, so
  the u32 arithmetic never wraps.
\<close>

theorem battle_outcome_index:
  "battle_outcome e signer1_id signer2_id = Inr (k1, k2, i1, i2, winner) \<Longrightarrow>
   unat i1 = unat (timestamp e) mod 32 + (case signer1_id of Account _ \<Rightarrow> 16 | _ \<Rightarrow> 0) \<and>
   unat i1 < 48"
proof -
  assume "battle_outcome e signer1_id signer2_id = Inr (k1, k2, i1, i2, winner)"
  then have "i1 = snd (player_key e signer1_id (base_index e))"
    by (auto simp: battle_outcome_Inr)
  then have "unat i1 = unat (timestamp e) mod 32 + (case signer1_id of Account _ \<Rightarrow> 16 | _ \<Rightarrow> 0)"
    by (simp add: player_key_index)
  moreover have "unat (timestamp e) mod 32 < 32" by simp
  ultimately show ?thesis by (auto split: ident.splits)
qed

text \<open>
  C16. The outcome step never panics when player 1 is a 32-byte key or contract identity,
  or an account whose serialization has at least 48 bytes: both Bytes::get calls return a
  byte.
\<close>

theorem battle_outcome_total:
  assumes "(\<exists>k. (signer1_id = Ed25519 k \<or> signer1_id = Contract k) \<and> length k = 32) \<or>
           (\<exists>a. signer1_id = Account a \<and> 48 \<le> length (serialize_account e a))"
  shows "\<exists>r. battle_outcome e signer1_id signer2_id = Inr r"
proof -
  have idx: "unat (snd (player_key e signer1_id (base_index e))) < length (fst (player_key e signer1_id (base_index e)))"
    using assms player_key_index [of e signer1_id] by (auto split: ident.splits)
  then show ?thesis
    by (auto simp: battle_outcome_Inr bytes_get_def)
qed

text \<open>
  C17. An invoker proof for player 1 is accepted only while the invoker's stored nonce is
  zero: the contract passes the stored nonce of the invoker's identity as the claimed
  nonce, so an identity that has ever consumed a signed proof can no longer battle
  through an invoker proof (IncorrectNonceForInvoker).
\<close>

theorem battle_invoker_needs_zero_nonce:
  assumes wf: "store_wf (data w)"
    and stored: "get_nonce (data w) (invoker e) = Inr n" and nz: "n \<noteq> 0"
  shows "battle e w Invoker s2 amount = Inl IncorrectNonceForInvoker"
proof -
  obtain n2 where n2: "get_nonce (data w) (sig_identifier e s2) = Inr n2"
    using get_nonce_wf [OF wf] by blast
  with stored nz have "battle_auth e (data w) Invoker s2 amount = Inl IncorrectNonceForInvoker"
    by (simp add: battle_auth_def Let_def)
  then show ?thesis by (simp add: battle_def Let_def)
qed

text \<open>
  C18. Before initialize, no battle succeeds: whatever the proofs, the call aborts (with
  Uninitialized once authorization passes).
\<close>

theorem battle_uninitialized_fails:
  assumes "data w Token = None"
  shows "\<forall>x. battle e w s1 s2 amount \<noteq> Inr x"
proof (intro allI notI)
  fix x
  assume "battle e w s1 s2 amount = Inr x"
  then obtain w' r where "battle e w s1 s2 amount = Inr (w', r)"
    by (cases x) auto
  from battle_settlement [OF this] assms show False by auto
qed

text \<open>
  C22. Progress: the contract is usable. Two distinct Ed25519 players, each of whom signed
  \<open>battle\<close> with their current nonce, the opponent and the stake, who hold and have
  approved the contract for the (non-negative) stake on the configured token, and a key of
  32 bytes (the length of an Ed25519 key), make \<open>battle\<close> return: none of its checks,
  transfers or index reads aborts.
\<close>

theorem battle_succeeds:
  assumes tok: "get_token (data w) = Inr addr" and ledger: "tokens w addr = Some tk"
    and s1: "s1 = Ed25519Sig k1" and s2: "s2 = Ed25519Sig k2"
    and distinct: "public_key k1 \<noteq> public_key k2" and len: "length (public_key k1) = 32"
    and n1: "get_nonce (data w) (Ed25519 (public_key k1)) = Inr n1"
    and n2: "get_nonce (data w) (Ed25519 (public_key k2)) = Inr n2"
    and sig1: "signature k1 = SignedBy (public_key k1) (signature_payload e ''battle''
       [RId (Ed25519 (public_key k1)), RI64 n1, RId (Ed25519 (public_key k2)), RBigInt amount])"
    and sig2: "signature k2 = SignedBy (public_key k2) (signature_payload e ''battle''
       [RId (Ed25519 (public_key k2)), RI64 n2, RId (Ed25519 (public_key k1)), RBigInt amount])"
    and amt: "0 \<le> amount" and own: "0 \<le> balance tk (self_ident e)"
    and funds1: "amount \<le> balance tk (Ed25519 (public_key k1))"
                "amount \<le> allowance tk (Ed25519 (public_key k1)) (self_ident e)"
    and funds2: "amount \<le> balance tk (Ed25519 (public_key k2))"
                "amount \<le> allowance tk (Ed25519 (public_key k2)) (self_ident e)"
  shows "\<exists>w' r. battle e w s1 s2 amount = Inr (w', r)"
proof -
  let ?st = "set_nonce (set_nonce (data w) (Ed25519 (public_key k1)) (n1 + 1))
               (Ed25519 (public_key k2)) (n2 + 1)"
  have auth: "battle_auth e (data w) s1 s2 amount = Inr ?st"
    using n1 n2 sig1 sig2 distinct
    by (simp add: battle_auth_def Let_def s1 s2 verify_sig_ed25519_def)
  have tok': "get_token ?st = Inr addr"
    using tok by (simp add: get_token_def data_get_bytes_def set_nonce_def)
  have idx: "unat (base_index e) < length (public_key k1)"
    using base_index_lt32 [of e] len by simp
  have "\<exists>x. battle e w s1 s2 amount = Inr x"
    using auth tok' ledger distinct amt own funds1 funds2 idx
    by (simp add: battle_def Let_def s1 s2 call_token_def xfer_from_def xfer_def
        spend_allowance_def spend_balance_def receive_balance_def battle_outcome_def bytes_get_def)
  then show ?thesis by fastforce
qed

text \<open>
  C25. When player 1 is an account, the outcome step reads its serialized key at index
  \<open>timestamp mod 32 + 16\<close> (line 103): it aborts with \<open>IndexOutOfBounds\<close> (the panic of
  \<open>get(..).unwrap()\<close>) exactly when the serialization is not longer than that index. The
  two escrow transfers already made are then rolled back with the whole call.
\<close>

theorem battle_outcome_short_account_key:
  "battle_outcome e (Account a) signer2_id = Inl IndexOutOfBounds \<longleftrightarrow>
   length (serialize_account e a) \<le> unat (timestamp e) mod 32 + 16"
proof -
  have "unat (snd (player_key e (Account a) (base_index e))) = unat (timestamp e) mod 32 + 16"
    using player_key_index [of e "Account a"] by simp
  then show ?thesis
    by (auto simp: battle_outcome_def Let_def bytes_get_def result_simps)
qed

text \<open>
  C31. A battle whose player 1 presents an account proof passes authorization only if
  that account's signature set meets the account's policy over the exact terms of this
  battle: the account exists, the signatures' keys strictly increase, every signature was
  made by its key over the \<open>battle\<close> payload naming the account, its current nonce, the
  opponent and the stake, and the signers' weights reach the medium threshold.
\<close>

theorem battle_auth_account_player1:
  assumes "battle_auth e st (AccountSig a) s2 amount = Inr st'"
  shows "\<exists>n1 acc. get_nonce st (Account (account_id a)) = Inr n1 \<and>
     accounts e (account_id a) = Some acc \<and> sorted_wrt (<) (map public_key (signatures a)) \<and>
     list_all (\<lambda>s. signature s = SignedBy (public_key s) (signature_payload e ''battle''
        [RId (Account (account_id a)), RI64 n1, RId (sig_identifier e s2), RBigInt amount]))
       (signatures a) \<and>
     medium_threshold acc \<le> sum_list (map (\<lambda>s. signer_weight acc (public_key s)) (signatures a))"
proof -
  from battle_auth_Inr_facts [OF assms] obtain n1 where
    n1: "get_nonce st (Account (account_id a)) = Inr n1" and
    v: "verify e (AccountSig a) ''battle''
          [RId (Account (account_id a)), RI64 n1, RId (sig_identifier e s2), RBigInt amount] = Inr ()"
    by auto
  from v n1 show ?thesis by (auto simp: verify_account_signatures_iff)
qed

text \<open>
  C34. The contract never checks the sign of the stake (lib.rs lines 42--82): once both
  proofs pass and the token contract is configured and deployed, a negative stake is
  rejected only by the token contract's first escrow transfer, and the whole call aborts
  with its \<open>NegativeAmount\<close> error.
\<close>

theorem battle_negative_stake:
  assumes auth: "battle_auth e (data w) s1 s2 amount = Inr st"
    and tok: "get_token (data w) = Inr addr" and tk: "tokens w addr = Some tk"
    and neg: "amount < 0"
  shows "battle e w s1 s2 amount = Inl (TokenFailed NegativeAmount)"
proof -
  have "get_token st = Inr addr"
    using tok get_token_cong [where st' = st and st = "data w", OF battle_auth_Token [OF auth]]
    by simp
  with auth tk neg show ?thesis
    by (simp add: battle_def Let_def call_token_def xfer_from_def)
qed

end
