(* ===== verification/Transactions.thy ===== *)
theory Transactions
  imports ByteBattle
begin

text \<open>
  Sequences of invocations. The host runs each invocation of an entry point to
  completion or discards all of its writes (spec section 5): \<open>invoke\<close> returns the new
  world and the reply, and the unchanged world on an abort. Between invocations of this
  contract, other transactions change the token contracts' state arbitrarily (minting,
  approvals, transfers by others) but never this contract's data. \<open>ledger_step\<close> is that
  relation, \<open>reachable\<close> the worlds it reaches from a freshly deployed contract. The
  lemmas: the store stays well-typed, the configured token address never changes once
  set, and every nonce either stays or advances by exactly one per step.
\<close>

datatype call =
    Initialize bytes
  | Battle signature signature int
  | NonceOf ident
  | TokenOf

datatype reply = RUnit | RBattle battle_ret | RNonce i64 | RToken bytes

text \<open>One invocation of an entry point; an abort rolls every write back.\<close>
fun invoke :: "env \<Rightarrow> world \<Rightarrow> call \<Rightarrow> world \<times> reply result" where
  "invoke e w (Initialize a) =
     (case initialize (data w) a of
        Inl err \<Rightarrow> (w, Inl err)
      | Inr st \<Rightarrow> (w\<lparr>data := st\<rparr>, Inr RUnit))"
| "invoke e w (Battle s1 s2 amount) =
     (case battle e w s1 s2 amount of
        Inl err \<Rightarrow> (w, Inl err)
      | Inr (w', r) \<Rightarrow> (w', Inr (RBattle r)))"
| "invoke e w (NonceOf who) = (w, map_sum (\<lambda>x. x) RNonce (nonce (data w) who))"
| "invoke e w TokenOf = (w, map_sum (\<lambda>x. x) RToken (token (data w)))"

inductive ledger_step :: "world \<Rightarrow> world \<Rightarrow> bool" where
  contract_call: "ledger_step w (fst (invoke e w c))"
| other_tx: "ledger_step w (w\<lparr>tokens := ts\<rparr>)"

inductive reachable :: "world \<Rightarrow> bool" where
  deployed: "reachable \<lparr>data = Map.empty, tokens = ts\<rparr>"
| step: "reachable w \<Longrightarrow> ledger_step w w' \<Longrightarrow> reachable w'"


text \<open>How many nonces of identity \<open>p\<close> a proof consumes when its battle succeeds, and
  the count over a run: the successful battles in which \<open>p\<close> signed.\<close>
definition consumed :: "env \<Rightarrow> ident \<Rightarrow> signature \<Rightarrow> i64" where
  "consumed e p s = (if s \<noteq> Invoker \<and> sig_identifier e s = p then 1 else 0)"

text \<open>A sequence of invocations, each under its own invocation context (ledger time,
  invoker), and the replies in order.\<close>
fun run_calls :: "world \<Rightarrow> (env \<times> call) list \<Rightarrow> world \<times> reply result list" where
  "run_calls w [] = (w, [])"
| "run_calls w ((e, c) # ecs) =
     (let (w1, r) = invoke e w c; (w2, rs) = run_calls w1 ecs in (w2, r # rs))"

fun nonce_uses :: "ident \<Rightarrow> (env \<times> call) list \<Rightarrow> reply result list \<Rightarrow> i64" where
  "nonce_uses p ((e, Battle s1 s2 a) # ecs) (Inr _ # rs) =
     consumed e p s1 + consumed e p s2 + nonce_uses p ecs rs"
| "nonce_uses p (_ # ecs) (_ # rs) = nonce_uses p ecs rs"
| "nonce_uses p _ _ = 0"

section \<open>What one invocation does to the store\<close>

lemma invoke_data_cases:
  "data (fst (invoke e w c)) = data w \<or>
   (\<exists>a. c = Initialize a \<and> initialize (data w) a = Inr (data (fst (invoke e w c)))) \<or>
   (\<exists>s1 s2 amount r. c = Battle s1 s2 amount \<and>
      battle e w s1 s2 amount = Inr (fst (invoke e w c), r))"
  by (cases c) (auto split: sum.splits prod.splits)

lemma battle_data:
  assumes "battle e w s1 s2 amount = Inr (w', r)"
  shows "battle_auth e (data w) s1 s2 amount = Inr (data w')"
  using battle_settlement [OF assms] by auto

lemma battle_auth_store_wf:
  assumes "battle_auth e st s1 s2 amount = Inr st'" and "store_wf st"
  shows "store_wf st'"
  using assms
  by (auto simp: battle_auth_def Let_def result_simps intro: vacn_store_wf)

lemma initialize_store_wf:
  "initialize st a = Inr st' \<Longrightarrow> store_wf st \<Longrightarrow> store_wf st'"
  by (auto simp: initialize_def store_wf_del split: if_splits)

lemma ledger_step_store_wf:
  assumes "ledger_step w w'" and "store_wf (data w)"
  shows "store_wf (data w')"
  using assms(1)
proof cases
  case (contract_call e c)
  from invoke_data_cases [of e w c] assms(2) show ?thesis
    by (auto simp: contract_call dest: initialize_store_wf battle_auth_store_wf battle_data)
next
  case (other_tx ts)
  with assms(2) show ?thesis by simp
qed

lemma battle_auth_nonce_step:
  assumes "battle_auth e st s1 s2 amount = Inr st'"
  shows "get_nonce st' who = get_nonce st who \<or>
         (\<exists>n. get_nonce st who = Inr n \<and> get_nonce st' who = Inr (n + 1))"
  using assms
  by (cases "s1 = Invoker"; cases "s2 = Invoker")
     (auto simp: battle_auth_def Let_def result_simps vacn_Inr_iffs split: if_splits)

lemma ledger_step_Token:
  assumes "ledger_step w w'" and "get_token (data w) = Inr a"
  shows "get_token (data w') = Inr a"
  using assms(1)
proof cases
  case (contract_call e c)
  have present: "data w Token \<noteq> None"
    using assms(2) by (cases "data w Token") (auto simp: get_token_def data_get_bytes_def)
  from invoke_data_cases [of e w c] show ?thesis
  proof (elim disjE exE conjE)
    assume "data (fst (invoke e w c)) = data w"
    with assms(2) show ?thesis by (simp add: contract_call)
  next
    fix b
    assume "initialize (data w) b = Inr (data (fst (invoke e w c)))"
    with present show ?thesis by (simp add: initialize_def)
  next
    fix s1 s2 amount r
    assume "battle e w s1 s2 amount = Inr (fst (invoke e w c), r)"
    then have "battle_auth e (data w) s1 s2 amount = Inr (data w')"
      by (simp add: contract_call battle_data)
    then have "data w' Token = data w Token" by (rule battle_auth_Token)
    from get_token_cong [where st' = "data w'" and st = "data w", OF this] assms(2)
    show ?thesis by simp
  qed
next
  case (other_tx ts)
  with assms(2) show ?thesis by simp
qed

section \<open>Store typing: no conversion traps\<close>

lemma get_token_no_conv: "store_wf st \<Longrightarrow> get_token st \<noteq> Inl ConversionError"
  by (cases "st Token") (auto simp: get_token_def data_get_bytes_def dest: store_wf_Token)

lemma verify_no_conv: "verify e s name args \<noteq> Inl ConversionError"
  using verify_Inl by blast

lemma battle_auth_no_conv:
  "store_wf st \<Longrightarrow> battle_auth e st s1 s2 amount \<noteq> Inl ConversionError"
  unfolding battle_auth_def Let_def
  by (intro bind_res_neq_Inl get_nonce_no_conv verify_no_conv vacn_no_conv)
     (auto dest: vacn_store_wf)

lemma call_token_no_conv: "call_token w addr f \<noteq> Inl ConversionError"
  by (auto simp: call_token_def unwrap_def split: option.splits sum.splits)

lemma battle_outcome_no_conv: "battle_outcome e id1 id2 \<noteq> Inl ConversionError"
  by (auto simp: battle_outcome_def Let_def result_simps split: prod.splits)

lemma battle_no_conv:
  "store_wf (data w) \<Longrightarrow> battle e w s1 s2 amount \<noteq> Inl ConversionError"
  unfolding battle_def Let_def
  by (intro bind_res_neq_Inl battle_auth_no_conv get_token_no_conv call_token_no_conv
      battle_outcome_no_conv)
     (auto dest: battle_auth_store_wf simp: call_token_no_conv split: prod.splits)

section \<open>Nonces over a run\<close>

lemma battle_auth_nonce_count:
  assumes "battle_auth e st s1 s2 amount = Inr st'"
  shows "get_nonce st' p = map_sum (\<lambda>x. x) (\<lambda>n. n + consumed e p s1 + consumed e p s2) (get_nonce st p)"
  using assms
  by (cases "s1 = Invoker"; cases "s2 = Invoker")
     (auto simp: battle_auth_def Let_def result_simps vacn_Inr_iffs consumed_def split: if_splits)

lemma initialize_get_nonce:
  assumes "initialize st a = Inr st'"
  shows "get_nonce st' = get_nonce st"
proof -
  from assms have "st' = st(Token \<mapsto> SBytes a)" by (simp add: initialize_def split: if_splits)
  then show ?thesis by (simp add: get_nonce_def data_get_i64_def fun_eq_iff)
qed

section \<open>Invariants of the ledger\<close>

text \<open>
  C19. In every world reachable from a fresh deployment, through any interleaving of this
  contract's invocations and other transactions, every entry of the contract's store
  holds a value of the type its key is read at, so get_nonce never traps.
\<close>

theorem reachable_store_wf: "reachable w \<Longrightarrow> store_wf (data w)"
proof (induction rule: reachable.induct)
  case (deployed ts)
  show ?case by simp
next
  case (step w w')
  then show ?case using ledger_step_store_wf by blast
qed

text \<open>
  C20. The configured token address is write-once over any run: once get_token returns an
  address, it returns the same address after any sequence of ledger steps.
\<close>

theorem token_write_once:
  "ledger_step\<^sup>*\<^sup>* w w' \<Longrightarrow> get_token (data w) = Inr a \<Longrightarrow> get_token (data w') = Inr a"
  by (induction rule: rtranclp_induct) (auto intro: ledger_step_Token)

text \<open>
  C21. Nonces only advance by one: across any ledger step (an invocation of this contract,
  successful or aborted, or another transaction), each identity's stored nonce is either
  unchanged or replaced by its successor.
\<close>

theorem ledger_step_nonce:
  assumes "ledger_step w w'"
  shows "get_nonce (data w') who = get_nonce (data w) who \<or>
         (\<exists>n. get_nonce (data w) who = Inr n \<and> get_nonce (data w') who = Inr (n + 1))"
  using assms
proof cases
  case (contract_call e c)
  from invoke_data_cases [of e w c] show ?thesis
  proof (elim disjE exE conjE)
    assume "data (fst (invoke e w c)) = data w"
    then show ?thesis by (simp add: contract_call)
  next
    fix a
    assume "initialize (data w) a = Inr (data (fst (invoke e w c)))"
    then have "data w' = (data w)(Token \<mapsto> SBytes a)"
      by (auto simp: contract_call initialize_def split: if_splits)
    then show ?thesis by (simp add: get_nonce_def data_get_i64_def)
  next
    fix s1 s2 amount r
    assume "battle e w s1 s2 amount = Inr (fst (invoke e w c), r)"
    then have "battle_auth e (data w) s1 s2 amount = Inr (data w')"
      by (simp add: contract_call battle_data)
    then show ?thesis by (rule battle_auth_nonce_step)
  qed
next
  case (other_tx ts)
  then show ?thesis by simp
qed

text \<open>
  C24. Type safety of the store: in every reachable world no invocation of any entry point
  aborts with a conversion error. Every \<open>.get::<DataKey, T>(key).unwrap()\<close> of the code
  (get_nonce in auth.rs, get_token in lib.rs) finds a value of the type it reads.
\<close>

theorem reachable_no_conversion_error:
  assumes "reachable w"
  shows "snd (invoke e w c) \<noteq> Inl ConversionError"
proof -
  have wf: "store_wf (data w)"
    using assms by induction (auto intro: ledger_step_store_wf)
  show ?thesis
    using battle_no_conv [OF wf] get_nonce_no_conv [OF wf] get_token_no_conv [OF wf]
    by (cases c) (auto simp: initialize_def nonce_def token_def split: sum.splits)
qed

text \<open>
  C30. Nonce monotonicity over any run (spec section 8): after any sequence of invocations,
  successful or aborted, an identity's stored nonce has advanced by exactly the number of
  successful battles in which it signed a proof (implicit proofs count zero), with the
  \<open>i64\<close> wrap-around; a store entry that is not a nonce stays as it was.
\<close>

theorem run_calls_nonce:
  "get_nonce (data (fst (run_calls w ecs))) p =
   map_sum (\<lambda>x. x) (\<lambda>n. n + nonce_uses p ecs (snd (run_calls w ecs))) (get_nonce (data w) p)"
proof (induction ecs arbitrary: w)
  case Nil
  then show ?case by (cases "get_nonce (data w) p") simp_all
next
  case (Cons ec ecs)
  obtain e c where ec: "ec = (e, c)" by fastforce
  show ?case
  proof (cases c)
    case (Battle s1 s2 amount)
    show ?thesis
    proof (cases "battle e w s1 s2 amount")
      case (Inl err)
      with Cons.IH [of w] show ?thesis by (simp add: ec Battle split_def Let_def)
    next
      case (Inr x)
      obtain w' r where x: "x = (w', r)" by (cases x)
      with Inr have "battle_auth e (data w) s1 s2 amount = Inr (data w')" by (simp add: battle_data)
      from battle_auth_nonce_count [OF this, of p] Cons.IH [of w'] Inr x show ?thesis
        by (cases "get_nonce (data w) p") (simp_all add: ec Battle add.assoc split_def Let_def)
    qed
  next
    case (Initialize a)
    with Cons.IH show ?thesis
      by (cases "initialize (data w) a")
         (simp_all add: ec initialize_get_nonce split_def Let_def)
  qed (simp_all add: ec Cons.IH split_def Let_def)
qed

end
