(* ===== verification/Abstract_Contract.thy ===== *)
theory Abstract_Contract
  imports Transactions
begin

text \<open>
  The contract as spec sections 3--4 describe it, and its refinement by the model of the
  code. The abstract state is the spec's: a write-once configuration slot (absent at
  deployment) and a nonce record that maps every identity to an unbounded integer, 0 when
  never recorded. The abstract operations are the spec's \<open>verify_and_consume_nonce\<close>
  (4.1), \<open>initialize\<close> and steps 1--5 of \<open>contest\<close> (4.2). \<open>abs_store\<close> reads a concrete
  store as an abstract state: the typed, partial map of \<open>DataKey\<close> entries becomes the
  total counter map, and each \<open>i64\<close> nonce its signed value. The refinement holds on
  well-typed stores whose counters are below \<open>i64::MAX\<close>; at \<open>i64::MAX\<close> the code's
  \<open>nonce + 1\<close> wraps and the refinement, with the spec's monotonicity, fails.
\<close>

section \<open>The abstract contract\<close>

record aspec =
  cfg :: "bytes option"
  counter :: "ident \<Rightarrow> int"

text \<open>Spec 4.1: an implicit proof needs claimed nonce 0 and changes nothing; any other
  proof needs the claimed nonce to equal the counter, which then advances by one.\<close>
definition spec_consume :: "env \<Rightarrow> signature \<Rightarrow> int \<Rightarrow> aspec \<Rightarrow> aspec result" where
  "spec_consume e s c A =
     (if s = Invoker then (if c \<noteq> 0 then Inl IncorrectNonceForInvoker else Inr A)
      else let who = sig_identifier e s in
        (if c \<noteq> counter A who then Inl IncorrectNonce
         else Inr (A\<lparr>counter := (counter A)(who := c + 1)\<rparr>)))"

text \<open>Spec 4.2, \<open>initialize\<close>: the slot is written once.\<close>
definition spec_initialize :: "bytes \<Rightarrow> aspec \<Rightarrow> aspec result" where
  "spec_initialize a A = (if cfg A \<noteq> None then Inl AlreadyInitialized else Inr (A\<lparr>cfg := Some a\<rparr>))"

text \<open>Spec 4.2, steps 1--5 of \<open>contest\<close>: resolve both identities, read both counters,
  verify A's proof over the message with A's counter, consume it, then the same for B.
  The message carries the counter as the 64-bit integer the spec's data model names.\<close>
definition spec_authorize :: "env \<Rightarrow> signature \<Rightarrow> signature \<Rightarrow> int \<Rightarrow> aspec \<Rightarrow> aspec result" where
  "spec_authorize e s1 s2 amount A =
     (let id1 = sig_identifier e s1; id2 = sig_identifier e s2;
          c1 = counter A id1; c2 = counter A id2 in
      bind_res (verify e s1 ''battle'' [RId id1, RI64 (word_of_int c1), RId id2, RBigInt amount]) (\<lambda>_.
      bind_res (spec_consume e s1 c1 A) (\<lambda>A1.
      bind_res (verify e s2 ''battle'' [RId id2, RI64 (word_of_int c2), RId id1, RBigInt amount]) (\<lambda>_.
      spec_consume e s2 c2 A1))))"

text \<open>The abstract contract's steps: an initialization, an authorized contest, or a step
  that changes neither the slot nor the counters (reads, aborted calls, other contracts).\<close>
inductive spec_step :: "aspec \<Rightarrow> aspec \<Rightarrow> bool" where
  spec_init: "spec_initialize a A = Inr A' \<Longrightarrow> spec_step A A'"
| spec_contest: "spec_authorize e s1 s2 amount A = Inr A' \<Longrightarrow> spec_step A A'"
| spec_skip: "spec_step A A"

text \<open>The abstract contract's reading of one call of the public interface (spec 4.2):
  \<open>initialize\<close> writes the slot, \<open>contest\<close> runs its authorization steps 1--5, the
  two views change nothing.\<close>
fun spec_call :: "env \<Rightarrow> call \<Rightarrow> aspec \<Rightarrow> aspec result" where
  "spec_call e (Initialize a) A = spec_initialize a A"
| "spec_call e (Battle s1 s2 amount) A = spec_authorize e s1 s2 amount A"
| "spec_call e (NonceOf who) A = Inr A"
| "spec_call e TokenOf A = Inr A"

text \<open>What a successful call may return in abstract state \<open>A\<close>: \<open>nonce(id)\<close> the
  identity's counter as an \<open>i64\<close>, \<open>token()\<close> the configured address.\<close>
fun spec_reply :: "call \<Rightarrow> aspec \<Rightarrow> reply \<Rightarrow> bool" where
  "spec_reply (NonceOf who) A r = (r = RNonce (word_of_int (counter A who)))"
| "spec_reply TokenOf A r = (case cfg A of None \<Rightarrow> False | Some a \<Rightarrow> r = RToken a)"
| "spec_reply _ A r = True"

text \<open>
  The abstract run of a trace of calls, given the outcome each call had (spec section 5:
  an aborted call has no effect): an aborted call leaves the abstract state as it is, a
  committed call must be one the abstract contract accepts, with a reply it allows, and
  moves the abstract state by exactly that call. \<open>None\<close> when a committed call is one
  the specification refuses, or the trace and the outcomes differ in length.
\<close>
fun spec_run :: "(env \<times> call) list \<Rightarrow> reply result list \<Rightarrow> aspec \<Rightarrow> aspec option" where
  "spec_run [] [] A = Some A"
| "spec_run ((e, c) # ecs) (Inl err # rs) A = spec_run ecs rs A"
| "spec_run ((e, c) # ecs) (Inr r # rs) A =
     (if spec_reply c A r
      then (case spec_call e c A of Inl err \<Rightarrow> None | Inr A' \<Rightarrow> spec_run ecs rs A')
      else None)"
| "spec_run _ _ A = None"

section \<open>The abstraction\<close>

definition abs_counter :: "store \<Rightarrow> ident \<Rightarrow> int" where
  "abs_counter st who = (case st (Nonce who) of Some (SI64 n) \<Rightarrow> sint n | _ \<Rightarrow> 0)"

definition abs_cfg :: "store \<Rightarrow> bytes option" where
  "abs_cfg st = (case st Token of Some (SBytes a) \<Rightarrow> Some a | _ \<Rightarrow> None)"

definition abs_store :: "store \<Rightarrow> aspec" where
  "abs_store st = \<lparr>cfg = abs_cfg st, counter = abs_counter st\<rparr>"

text \<open>No counter of the store has reached \<open>i64::MAX\<close>.\<close>
definition below_max :: "store \<Rightarrow> bool" where
  "below_max st \<longleftrightarrow> (\<forall>who. abs_counter st who < 2 ^ 63 - 1)"

section \<open>Refinement, operation by operation\<close>

lemma abs_store_sel [simp]:
  "cfg (abs_store st) = abs_cfg st" "counter (abs_store st) = abs_counter st"
  by (simp_all add: abs_store_def)

lemma get_nonce_abs:
  "store_wf st \<Longrightarrow> \<exists>n. get_nonce st who = Inr n \<and> abs_counter st who = sint n"
  using get_nonce_wf [of st who]
  by (cases "st (Nonce who)")
     (auto simp: abs_counter_def get_nonce_def data_get_i64_def split: sval.splits)

lemma abs_store_set_nonce:
  "abs_store (set_nonce st who n) = (abs_store st)\<lparr>counter := (counter (abs_store st))(who := sint n)\<rparr>"
  by (simp add: abs_store_def abs_counter_def abs_cfg_def set_nonce_def fun_eq_iff)

lemma abs_counter_set_nonce [simp]:
  "abs_counter (set_nonce st who n) who' = (if who' = who then sint n else abs_counter st who')"
  by (simp add: abs_counter_def set_nonce_def)

lemma vacn_abs:
  assumes "store_wf st"
    and "sint n < 2 ^ 63 - 1 \<or> sint n \<noteq> abs_counter st (sig_identifier e s)"
  shows "map_sum (\<lambda>x. x) abs_store (verify_and_consume_nonce e st s n) =
         spec_consume e s (sint n) (abs_store st)"
proof (cases "s = Invoker")
  case True
  then show ?thesis by (simp add: spec_consume_def)
next
  case signed: False
  from get_nonce_abs [OF assms(1)] obtain m
    where m: "get_nonce st (sig_identifier e s) = Inr m" "abs_counter st (sig_identifier e s) = sint m"
    by blast
  show ?thesis
  proof (cases "n = m")
    case True
    with assms(2) m have "sint (m + 1) = sint m + 1" by (simp add: sint_succ_i64)
    with True signed m show ?thesis
      by (simp add: vacn_signed_eq spec_consume_def abs_store_set_nonce)
  next
    case False
    with signed m show ?thesis
      by (simp add: vacn_signed_eq spec_consume_def sint_eq_iff)
  qed
qed

lemma abs_store_initialize:
  "abs_store (st(Token \<mapsto> SBytes a)) = (abs_store st)\<lparr>cfg := Some a\<rparr>"
  by (simp add: abs_store_def abs_cfg_def abs_counter_def fun_eq_iff)

lemma abs_cfg_wf: "store_wf st \<Longrightarrow> abs_cfg st = None \<longleftrightarrow> st Token = None"
  by (cases "st Token") (auto simp: abs_cfg_def dest: store_wf_Token)

lemma initialize_abs:
  assumes "store_wf st"
  shows "map_sum (\<lambda>x. x) abs_store (initialize st a) = spec_initialize a (abs_store st)"
  using abs_cfg_wf [OF assms]
  by (cases "st Token = None")
     (simp_all add: initialize_def spec_initialize_def abs_store_initialize)

lemma battle_auth_abs:
  assumes wf: "store_wf st"
    and b1: "abs_counter st (sig_identifier e s1) < 2 ^ 63 - 1"
    and b2: "abs_counter st (sig_identifier e s2) < 2 ^ 63 - 1"
  shows "map_sum (\<lambda>x. x) abs_store (battle_auth e st s1 s2 amount) =
         spec_authorize e s1 s2 amount (abs_store st)"
proof -
  obtain n1 where n1: "get_nonce st (sig_identifier e s1) = Inr n1"
      "abs_counter st (sig_identifier e s1) = sint n1"
    using get_nonce_abs [OF wf] by blast
  obtain n2 where n2: "get_nonce st (sig_identifier e s2) = Inr n2"
      "abs_counter st (sig_identifier e s2) = sint n2"
    using get_nonce_abs [OF wf] by blast
  have first: "spec_consume e s1 (sint n1) (abs_store st) =
      map_sum (\<lambda>x. x) abs_store (verify_and_consume_nonce e st s1 n1)"
    using vacn_abs [OF wf] b1 n1 by simp
  have second: "map_sum (\<lambda>x. x) abs_store (verify_and_consume_nonce e st1 s2 n2) =
      spec_consume e s2 (sint n2) (abs_store st1)"
    if st1: "verify_and_consume_nonce e st s1 n1 = Inr st1" for st1
  proof (rule vacn_abs)
    show "store_wf st1" using vacn_store_wf [OF st1 wf] .
    show "sint n2 < 2 ^ 63 - 1 \<or> sint n2 \<noteq> abs_counter st1 (sig_identifier e s2)"
    proof (cases "s1 = Invoker")
      case True
      with st1 have "st1 = st" by (simp split: if_splits)
      with b2 n2 show ?thesis by simp
    next
      case False
      with st1 n1 have "st1 = set_nonce st (sig_identifier e s1) (n1 + 1)"
        by (simp add: vacn_signed_Inr)
      with b1 b2 n1 n2 show ?thesis by (auto simp: sint_succ_i64)
    qed
  qed
  show ?thesis
    unfolding battle_auth_def spec_authorize_def Let_def
    using n1 n2
    by (cases "verify_and_consume_nonce e st s1 n1")
       (simp_all add: map_sum_bind_res first bind_res_map_sum second)
qed

lemma abs_store_tokens [simp]: "abs_store (data (w\<lparr>tokens := ts\<rparr>)) = abs_store (data w)"
  by simp

lemma ledger_step_abs:
  assumes step: "ledger_step w w'" and wf: "store_wf (data w)" and bound: "below_max (data w)"
  shows "spec_step (abs_store (data w)) (abs_store (data w'))"
  using step
proof cases
  case (contract_call e c)
  from invoke_data_cases [of e w c] show ?thesis
  proof (elim disjE exE conjE)
    assume "data (fst (invoke e w c)) = data w"
    then show ?thesis by (simp add: contract_call spec_skip)
  next
    fix a
    assume "initialize (data w) a = Inr (data (fst (invoke e w c)))"
    with initialize_abs [OF wf, of a]
    have "spec_initialize a (abs_store (data w)) = Inr (abs_store (data w'))"
      by (simp add: contract_call)
    then show ?thesis by (rule spec_init)
  next
    fix s1 s2 amount r
    assume "battle e w s1 s2 amount = Inr (fst (invoke e w c), r)"
    then have "battle_auth e (data w) s1 s2 amount = Inr (data w')"
      by (simp add: contract_call battle_data)
    with battle_auth_abs [OF wf, of e s1 s2 amount] bound
    have "spec_authorize e s1 s2 amount (abs_store (data w)) = Inr (abs_store (data w'))"
      by (simp add: below_max_def)
    then show ?thesis by (rule spec_contest)
  qed
next
  case (other_tx ts)
  then show ?thesis by (simp add: spec_skip)
qed

text \<open>A step of the abstract contract raises a counter by at most two (one per proof).\<close>

lemma spec_consume_bound:
  "spec_consume e s c A = Inr A' \<Longrightarrow> counter A' who \<le> counter A who + 1"
  by (auto simp: spec_consume_def Let_def split: if_splits)

lemma spec_step_counter_bound:
  assumes "spec_step A A'"
  shows "counter A' who \<le> counter A who + 2"
  using assms
proof cases
  case (spec_init a)
  then show ?thesis by (auto simp: spec_initialize_def split: if_splits)
next
  case (spec_contest e s1 s2 amount)
  then obtain A1 where "spec_consume e s1 (counter A (sig_identifier e s1)) A = Inr A1"
      and "spec_consume e s2 (counter A (sig_identifier e s2)) A1 = Inr A'"
    by (auto simp: spec_authorize_def Let_def result_simps)
  then show ?thesis by (fastforce dest: spec_consume_bound [of _ _ _ _ _ who])
qed simp

lemma run_calls_Cons_fst:
  "fst (run_calls w ((e, c) # ecs)) = fst (run_calls (fst (invoke e w c)) ecs)"
  by (simp add: split_def Let_def)

lemma run_calls_Cons_snd:
  "snd (run_calls w ((e, c) # ecs)) = snd (invoke e w c) # snd (run_calls (fst (invoke e w c)) ecs)"
  by (simp add: split_def Let_def)

text \<open>One invocation in lockstep with the abstract contract: an aborted call leaves the
  store, a committed one is the abstract call on the abstracted store, with a reply the
  abstract state allows.\<close>

lemma invoke_abs:
  assumes wf: "store_wf (data w)" and bound: "below_max (data w)"
  shows "case snd (invoke e w c) of
           Inl err \<Rightarrow> data (fst (invoke e w c)) = data w
         | Inr r \<Rightarrow> spec_reply c (abs_store (data w)) r \<and>
             spec_call e c (abs_store (data w)) = Inr (abs_store (data (fst (invoke e w c))))"
proof (cases c)
  case (Initialize a)
  then show ?thesis
    using initialize_abs [OF wf, of a]
    by (cases "initialize (data w) a") simp_all
next
  case (Battle s1 s2 amount)
  show ?thesis
  proof (cases "battle e w s1 s2 amount")
    case (Inl err)
    with Battle show ?thesis by simp
  next
    case (Inr p)
    obtain w' r where p: "p = (w', r)" by (cases p)
    with Inr have "battle_auth e (data w) s1 s2 amount = Inr (data w')"
      by (simp add: battle_data)
    with battle_auth_abs [OF wf, of e s1 s2 amount] bound
    have "spec_authorize e s1 s2 amount (abs_store (data w)) = Inr (abs_store (data w'))"
      by (simp add: below_max_def)
    with Battle Inr p show ?thesis by simp
  qed
next
  case (NonceOf who)
  obtain n where "get_nonce (data w) who = Inr n" "abs_counter (data w) who = sint n"
    using get_nonce_abs [OF wf] by blast
  with NonceOf show ?thesis by (simp add: nonce_def)
next
  case TokenOf
  then show ?thesis
    using store_wf_Token [OF wf]
    by (cases "data w Token")
       (auto simp: token_def get_token_def data_get_bytes_def abs_cfg_def split: sval.splits)
qed

section \<open>The contract refines its specification\<close>

text \<open>
  C23. Refinement: on a well-typed store with every counter below \<open>i64::MAX\<close>, each
  invocation of an entry point is a step of the abstract contract of spec sections 3--4
  on the abstracted store, and the two read-only entry points return what the abstract
  state holds: \<open>nonce(id)\<close> the identity's counter (as an \<open>i64\<close>), \<open>token()\<close> the
  configured address, or \<open>Uninitialized\<close> when the slot is empty.
\<close>

theorem invoke_refines:
  assumes wf: "store_wf (data w)" and bound: "below_max (data w)"
  shows "spec_step (abs_store (data w)) (abs_store (data (fst (invoke e w c)))) \<and>
    (\<forall>who. c = NonceOf who \<longrightarrow>
       snd (invoke e w c) = Inr (RNonce (word_of_int (counter (abs_store (data w)) who)))) \<and>
    (c = TokenOf \<longrightarrow> snd (invoke e w c) =
       (case cfg (abs_store (data w)) of None \<Rightarrow> Inl Uninitialized | Some a \<Rightarrow> Inr (RToken a)))"
proof (intro conjI allI impI)
  show "spec_step (abs_store (data w)) (abs_store (data (fst (invoke e w c))))"
    using ledger_step_abs [OF ledger_step.contract_call wf bound] .
next
  fix who
  assume "c = NonceOf who"
  moreover obtain n where "get_nonce (data w) who = Inr n" "abs_counter (data w) who = sint n"
    using get_nonce_abs [OF wf] by blast
  ultimately show "snd (invoke e w c) = Inr (RNonce (word_of_int (counter (abs_store (data w)) who)))"
    by (simp add: nonce_def)
next
  assume "c = TokenOf"
  then show "snd (invoke e w c) =
      (case cfg (abs_store (data w)) of None \<Rightarrow> Inl Uninitialized | Some a \<Rightarrow> Inr (RToken a))"
    using store_wf_Token [OF wf]
    by (cases "data w Token")
       (auto simp: token_def get_token_def data_get_bytes_def abs_cfg_def)
qed

text \<open>
  C33. Trace refinement, call by call: for every run of invocations (any entry points,
  under any invocation contexts) from a well-typed store, the abstract run that the
  calls and their outcomes determine is defined and ends in the abstraction of the final
  store. So each committed call is accepted by the abstract contract of spec sections
  3--4 and moves its state exactly as that call does, each read returns what the abstract
  state holds at that point, and each aborted call changes nothing. The counters must
  leave room for the run: an invocation consumes at most two nonces, so a margin of two
  per invocation below \<open>i64::MAX\<close> keeps every intermediate store in the range where the
  words and the spec's integers agree.
\<close>

theorem run_calls_refines:
  assumes "store_wf (data w)"
    and "\<forall>who. abs_counter (data w) who + 2 * int (length ecs) < 2 ^ 63 - 1"
  shows "spec_run ecs (snd (run_calls w ecs)) (abs_store (data w)) =
           Some (abs_store (data (fst (run_calls w ecs))))"
  using assms
proof (induction ecs arbitrary: w)
  case Nil
  then show ?case by simp
next
  case (Cons ec ecs)
  obtain e c where ec: "ec = (e, c)" by (cases ec)
  let ?w1 = "fst (invoke e w c)"
  have step: "ledger_step w ?w1" by (rule ledger_step.contract_call)
  have bound: "below_max (data w)"
    unfolding below_max_def
  proof
    fix who
    have "0 \<le> int (length (ec # ecs))" by simp
    moreover have "abs_counter (data w) who + 2 * int (length (ec # ecs)) < 2 ^ 63 - 1"
      using Cons.prems(2) by blast
    ultimately show "abs_counter (data w) who < 2 ^ 63 - 1" by linarith
  qed
  have spec: "spec_step (abs_store (data w)) (abs_store (data ?w1))"
    by (rule ledger_step_abs [OF step Cons.prems(1) bound])
  have wf1: "store_wf (data ?w1)"
    by (rule ledger_step_store_wf [OF step Cons.prems(1)])
  have "\<forall>who. abs_counter (data ?w1) who + 2 * int (length ecs) < 2 ^ 63 - 1"
  proof
    fix who
    have "abs_counter (data ?w1) who \<le> abs_counter (data w) who + 2"
      using spec_step_counter_bound [OF spec, of who] by simp
    moreover have "abs_counter (data w) who + 2 * int (length (ec # ecs)) < 2 ^ 63 - 1"
      using Cons.prems(2) by blast
    ultimately show "abs_counter (data ?w1) who + 2 * int (length ecs) < 2 ^ 63 - 1"
      by simp
  qed
  note IH = Cons.IH [OF wf1 this]
  show ?case
    using invoke_abs [OF Cons.prems(1) bound, of e c] IH
    unfolding ec run_calls_Cons_fst run_calls_Cons_snd
    by (cases "snd (invoke e w c)") simp_all
qed

end
