(* ===== verification/Tests.thy ===== *)
theory Tests
  imports Transactions "HOL-Library.Option_ord"
begin

text \<open>
  The integration tests of src/tests/byte_battle_tests.rs, with the helpers of
  src/tests/helper.rs, as runs of the ledger model. A test is a bool-valued function of
  what the test generates at random (contract addresses, player keys): a plain test passes
  when no call aborts and every assertion holds; a \<open>should_panic\<close> test passes when some
  call aborts. Each client call is one \<open>invoke\<close>, and the token contract's setup calls are
  the token operations \<open>mint\<close> and \<open>approve\<close> on the token's state. Signatures made with
  \<open>ed25519::sign\<close> are the idealised \<open>SignedBy\<close> values over the canonical payload of the
  contract under test. \<open>Option<u8>\<close> is compared as Rust compares it (\<open>None\<close> below every
  \<open>Some\<close>), through HOL-Library.Option_ord.
\<close>

section \<open>Test helpers\<close>

text \<open>\<open>create_token_contract\<close>: a freshly initialized token holds no balances or allowances.\<close>
definition fresh_token :: token_state where
  "fresh_token = \<lparr>balance = (\<lambda>_. 0), allowance = (\<lambda>_ _. 0)\<rparr>"

text \<open>\<open>create_byte_battle_contract\<close>: the contract is registered with empty storage, beside
  the token contracts already deployed.\<close>
definition deploy :: "(bytes \<rightharpoonup> token_state) \<Rightarrow> world" where
  "deploy ts = \<lparr>data = Map.empty, tokens = ts\<rparr>"

text \<open>\<open>ed25519::sign(&e, &key, &contract, symbol!("battle"), args)\<close>.\<close>
definition test_sign :: "env \<Rightarrow> bytes \<Rightarrow> rawval list \<Rightarrow> signature" where
  "test_sign e k args =
     Ed25519Sig \<lparr>public_key = k, signature = SignedBy k (signature_payload e ''battle'' args)\<rparr>"

text \<open>\<open>e.ledger().set(LedgerInfo { timestamp: 1, .. })\<close> with the default passphrase.\<close>
definition test_ledger :: "env \<Rightarrow> env" where
  "test_ledger e = e\<lparr>timestamp := 1, network_passphrase := []\<rparr>"

text \<open>
  The common prefix of the battle tests (lines 44--109 and the nonce reads): deploy a
  fresh token at \<open>tok\<close> and the contract, initialize it with \<open>tok\<close>, mint \<open>bet\<close> to each
  player, approve the contract for \<open>bet\<close> on behalf of each, then read both players'
  nonces and let each sign the terms \<open>args1\<close> and \<open>args2\<close> built from their nonce.
\<close>
definition test_prepare ::
  "env \<Rightarrow> bytes \<Rightarrow> bytes \<Rightarrow> bytes \<Rightarrow> int \<Rightarrow> (i64 \<Rightarrow> rawval list) \<Rightarrow> (i64 \<Rightarrow> rawval list) \<Rightarrow>
   (world \<times> signature \<times> signature) result" where
  "test_prepare e tok k1 k2 bet args1 args2 =
     (let p1 = Ed25519 k1; p2 = Ed25519 k2; me = Contract (current_contract e) in
      case invoke e (deploy [tok \<mapsto> fresh_token]) (Initialize tok) of
        (_, Inl err) \<Rightarrow> Inl err
      | (w1, Inr _) \<Rightarrow>
          (let w = w1\<lparr>tokens := (tokens w1)(tok \<mapsto>
                     approve p2 me bet (approve p1 me bet (mint p2 bet (mint p1 bet fresh_token))))\<rparr> in
           bind_res (nonce (data w) p1) (\<lambda>n1.
           bind_res (nonce (data w) p2) (\<lambda>n2.
           Inr (w, test_sign e k1 (args1 n1), test_sign e k2 (args2 n2))))))"

text \<open>The terms each player of \<open>test_battle\<close> signs: self, own nonce, opponent, stake.\<close>
definition terms :: "bytes \<Rightarrow> bytes \<Rightarrow> int \<Rightarrow> i64 \<Rightarrow> rawval list" where
  "terms k k' bet n = [RId (Ed25519 k), RI64 n, RId (Ed25519 k'), RBigInt bet]"

text \<open>A \<open>should_panic\<close> test passes when any of its calls aborts.\<close>
fun aborted :: "'a result \<Rightarrow> bool" where
  "aborted (Inl _) = True"
| "aborted (Inr _) = False"

section \<open>The tests\<close>

text \<open>\<open>test_initialize\<close> (lines 12--21).\<close>
definition test_initialize :: "env \<Rightarrow> bytes \<Rightarrow> bool" where
  "test_initialize e tok =
     (case invoke e (deploy Map.empty) (Initialize tok) of
        (_, Inl _) \<Rightarrow> False
      | (w1, Inr _) \<Rightarrow> snd (invoke e w1 TokenOf) = Inr (RToken tok))"

text \<open>\<open>test_initialize_already_initialized_expect_panic\<close> (lines 23--32): the expected
  panic is the \<open>"Error: Already initialized"\<close> one.\<close>
definition test_initialize_twice :: "env \<Rightarrow> bytes \<Rightarrow> bool" where
  "test_initialize_twice e tok =
     (case invoke e (deploy Map.empty) (Initialize tok) of
        (_, Inl err) \<Rightarrow> err = AlreadyInitialized
      | (w1, Inr _) \<Rightarrow> snd (invoke e w1 (Initialize tok)) = Inl AlreadyInitialized)"

text \<open>\<open>test_battle\<close> (lines 34--145): after the battle, the test asserts that player 1's
  compare index is \<open>timestamp % 32\<close> and, comparing the two returned keys at player 1's
  index, that the player it reads as the winner holds twice the stake.\<close>
definition test_battle :: "env \<Rightarrow> bytes \<Rightarrow> bytes \<Rightarrow> bytes \<Rightarrow> bool" where
  "test_battle e0 tok k1 k2 =
     (let e = test_ledger e0; bet = 100 in
      case test_prepare e tok k1 k2 bet (terms k1 k2 bet) (terms k2 k1 bet) of
        Inl _ \<Rightarrow> False
      | Inr (w, s1, s2) \<Rightarrow>
          (case invoke e w (Battle s1 s2 bet) of
             (w', Inr (RBattle (key1, key2, i1, i2))) \<Rightarrow>
               i1 = ucast (timestamp e mod 32) \<and>
               (case tokens w' tok of
                  None \<Rightarrow> False
                | Some ts \<Rightarrow>
                    (if bytes_get key2 i1 < bytes_get key1 i1 then balance ts (Ed25519 k1) = bet * 2
                     else balance ts (Ed25519 k2) = bet * 2))
           | _ \<Rightarrow> False))"

text \<open>\<open>test_battle_different_bet_amount_expect_panic\<close> (lines 147--246): player 1 signs a
  stake of 90 while the call stakes 100.\<close>
definition test_battle_different_bet_amount :: "env \<Rightarrow> bytes \<Rightarrow> bytes \<Rightarrow> bytes \<Rightarrow> bool" where
  "test_battle_different_bet_amount e0 tok k1 k2 =
     (let e = test_ledger e0; bet = 100 in
      case test_prepare e tok k1 k2 bet (terms k1 k2 (bet - 10)) (terms k2 k1 bet) of
        Inl _ \<Rightarrow> True
      | Inr (w, s1, s2) \<Rightarrow> aborted (snd (invoke e w (Battle s1 s2 bet))))"

text \<open>\<open>test_battle_different_user_expect_panic\<close> (lines 248--348): player 1 signs terms
  naming a third player \<open>k3\<close> (and a stake of 90).\<close>
definition test_battle_different_user :: "env \<Rightarrow> bytes \<Rightarrow> bytes \<Rightarrow> bytes \<Rightarrow> bytes \<Rightarrow> bool" where
  "test_battle_different_user e0 tok k1 k2 k3 =
     (let e = test_ledger e0; bet = 100 in
      case test_prepare e tok k1 k2 bet (terms k1 k3 (bet - 10)) (terms k2 k1 bet) of
        Inl _ \<Rightarrow> True
      | Inr (w, s1, s2) \<Rightarrow> aborted (snd (invoke e w (Battle s1 s2 bet))))"

text \<open>\<open>test_battle_reuse_sigs_expect_panic\<close> (lines 349--448): the same two proofs are
  submitted twice; the test passes if either call aborts.\<close>
definition test_battle_reuse_sigs :: "env \<Rightarrow> bytes \<Rightarrow> bytes \<Rightarrow> bytes \<Rightarrow> bool" where
  "test_battle_reuse_sigs e0 tok k1 k2 =
     (let e = test_ledger e0; bet = 100 in
      case test_prepare e tok k1 k2 bet (terms k1 k2 bet) (terms k2 k1 bet) of
        Inl _ \<Rightarrow> True
      | Inr (w, s1, s2) \<Rightarrow>
          (case invoke e w (Battle s1 s2 bet) of
             (_, Inl _) \<Rightarrow> True
           | (w', Inr _) \<Rightarrow> aborted (snd (invoke e w' (Battle s1 s2 bet)))))"

section \<open>Lemmas\<close>

lemma test_prepare_eq:
  "test_prepare e tok k1 k2 bet args1 args2 =
   Inr (\<lparr>data = [Token \<mapsto> SBytes tok], tokens = [tok \<mapsto>
          approve (Ed25519 k2) (Contract (current_contract e)) bet
           (approve (Ed25519 k1) (Contract (current_contract e)) bet
             (mint (Ed25519 k2) bet (mint (Ed25519 k1) bet fresh_token)))]\<rparr>,
        test_sign e k1 (args1 0), test_sign e k2 (args2 0))"
  by (simp add: test_prepare_def deploy_def initialize_def nonce_def get_nonce_def data_get_i64_def
      Let_def)

lemmas test_run_defs = battle_def battle_auth_def Let_def get_nonce_def data_get_i64_def
  signature_payload_def verify_sig_ed25519_def get_token_def data_get_bytes_def call_token_def
  xfer_from_def xfer_def spend_allowance_def spend_balance_def receive_balance_def
  battle_outcome_def bytes_get_def set_nonce_def mint_def approve_def fresh_token_def
  test_sign_def terms_def test_ledger_def

text \<open>
  C26. \<open>test_battle\<close> passes for every pair of distinct generated keys, whichever of the
  two holds the larger byte at the compare index: its oracle compares the two returned keys,
  which are both player 1's key (the bug of line 94), so it always expects player 2 to be
  paid, as the code does. The test cannot detect the bug.
\<close>

theorem test_battle_passes:
  assumes "length k1 = 32" and "k1 \<noteq> k2"
  shows "test_battle e tok k1 k2"
  using assms
  by (simp add: test_battle_def test_prepare_eq test_run_defs)


text \<open>
  C27. The other five tests of the suite pass on every generated input: initialize then
  token returns the address; a second initialize panics with AlreadyInitialized; a battle
  in which player 1 signed a different stake, or a different opponent, panics; and
  submitting the same two proofs twice panics (the second call, whose nonces are stale,
  when the first succeeds).
\<close>

theorem test_suite_passes:
  "test_initialize e tok \<and> test_initialize_twice e tok \<and>
   test_battle_different_bet_amount e tok k1 k2 \<and> test_battle_different_user e tok k1 k2 k3 \<and>
   test_battle_reuse_sigs e tok k1 k2"
proof (intro conjI)
  show "test_initialize e tok"
    by (simp add: test_initialize_def deploy_def initialize_def token_def)
  show "test_initialize_twice e tok"
    by (simp add: test_initialize_twice_def deploy_def initialize_def)
  show "test_battle_different_bet_amount e tok k1 k2"
    by (simp add: test_battle_different_bet_amount_def test_prepare_eq test_run_defs)
  show "test_battle_different_user e tok k1 k2 k3"
    by (simp add: test_battle_different_user_def test_prepare_eq test_run_defs)
  show "test_battle_reuse_sigs e tok k1 k2"
    by (simp add: test_battle_reuse_sigs_def test_prepare_eq test_run_defs
        split: sum.splits prod.splits)
qed

end
