(* ===== verification/Settlement.thy ===== *)
theory Settlement
  imports ByteBattle
begin

text \<open>
  The settlement half of \<open>battle\<close> (lib.rs lines 68--119) seen from the asset ledger. First
  the whole effect of a successful battle on the token contracts: only the configured token
  contract changes, only the two players' balances change, by exactly opposite amounts, and
  only their allowances to the contract shrink, each by the stake. Then \<open>battle_calls\<close>,
  the body of \<open>battle\<close> instrumented with the log of the token-client calls it issues
  (\<open>token.xfer_from\<close> at lines 69 and 76, \<open>token.xfer\<close> at lines 106/113), in order, the
  failing one included: it computes the same result as \<open>battle\<close>, and its log shows the
  order the spec demands (section 4.2 steps 5--9 and the escrow-before-payout property of
  section 8).
\<close>

section \<open>The instrumented entry point\<close>

datatype token_call =
    CallXferFrom ident ident int
  | CallXfer ident int

text \<open>Lines 42--126 with the token-client calls logged: \<open>CallXferFrom from to amount\<close>
  for \<open>token.xfer_from\<close>, \<open>CallXfer to amount\<close> for \<open>token.xfer\<close>.\<close>
definition battle_calls ::
  "env \<Rightarrow> world \<Rightarrow> signature \<Rightarrow> signature \<Rightarrow> int \<Rightarrow>
   token_call list \<times> (world \<times> battle_ret) result" where
  "battle_calls e w player1_sig player2_sig amount =
     (let signer1_id = sig_identifier e player1_sig;
          signer2_id = sig_identifier e player2_sig;
          me = Contract (current_contract e) in
      case battle_auth e (data w) player1_sig player2_sig amount of
        Inl err \<Rightarrow> ([], Inl err)
      | Inr st \<Rightarrow>
      (case get_token st of
         Inl err \<Rightarrow> ([], Inl err)
       | Inr addr \<Rightarrow>
       (let c1 = CallXferFrom signer1_id me amount in
        case call_token (w\<lparr>data := st\<rparr>) addr (xfer_from me 0 signer1_id me amount) of
          Inl err \<Rightarrow> ([c1], Inl err)
        | Inr w2 \<Rightarrow>
        (let c2 = CallXferFrom signer2_id me amount in
         case call_token w2 addr (xfer_from me 0 signer2_id me amount) of
           Inl err \<Rightarrow> ([c1, c2], Inl err)
         | Inr w3 \<Rightarrow>
         (case battle_outcome e signer1_id signer2_id of
            Inl err \<Rightarrow> ([c1, c2], Inl err)
          | Inr (k1, k2, i1, i2, winner) \<Rightarrow>
          (let c3 = CallXfer winner (amount * 2) in
           case call_token w3 addr (xfer me 0 winner (amount * 2)) of
             Inl err \<Rightarrow> ([c1, c2, c3], Inl err)
           | Inr w4 \<Rightarrow> ([c1, c2, c3], Inr (w4, (k1, k2, i1, i2)))))))))"

section \<open>Lemmas\<close>

lemma xfer_from_balance:
  "xfer_from spender n from to amount ts = Inr ts' \<Longrightarrow>
   balance ts' x = balance ts x - (if x = from then amount else 0) + (if x = to then amount else 0)"
  by (simp add: xfer_from_Inr_iff)

lemma xfer_from_allowance:
  "xfer_from spender n from to amount ts = Inr ts' \<Longrightarrow>
   allowance ts' x y = allowance ts x y - (if x = from \<and> y = spender then amount else 0)"
  by (auto simp: xfer_from_Inr_iff)

lemma xfer_balance:
  "xfer from n to amount ts = Inr ts' \<Longrightarrow>
   balance ts' x = balance ts x - (if x = from then amount else 0) + (if x = to then amount else 0)"
  by (simp add: xfer_Inr_iff)

lemma xfer_allowance: "xfer from n to amount ts = Inr ts' \<Longrightarrow> allowance ts' = allowance ts"
  by (simp add: xfer_Inr_iff)

text \<open>The instrumented entry point computes exactly what \<open>battle\<close> computes: the log is
  an observation added to it, not a change of behaviour, so what the properties below
  show of the log holds of \<open>battle\<close>.\<close>

lemma battle_calls_result: "snd (battle_calls e w s1 s2 amount) = battle e w s1 s2 amount"
  by (simp add: battle_calls_def battle_def Let_def split: sum.split prod.split)

lemmas transfer_effects = xfer_from_balance xfer_from_allowance xfer_balance xfer_allowance

section \<open>Properties of the settlement\<close>

text \<open>
  C2. The whole effect of a successful battle on the asset ledger: only the configured
  token contract changes; on it, player 1's balance falls by the stake and player 2's
  rises by the stake, whatever the keys and the ledger time (the payout of twice the
  stake always goes to player 2, the bug of line 94); every other balance, the
  contract's included, is unchanged, so the total supply is conserved; and the
  allowances each player gave the contract shrink by the stake, every other allowance
  unchanged.
\<close>

theorem battle_token_effect:
  assumes "battle e w s1 s2 amount = Inr (w', r)"
  shows "\<exists>addr tk tk'. get_token (data w) = Inr addr \<and> tokens w addr = Some tk \<and>
     tokens w' addr = Some tk' \<and> (\<forall>a. a \<noteq> addr \<longrightarrow> tokens w' a = tokens w a) \<and>
     (\<forall>x. balance tk' x = balance tk x - (if x = sig_identifier e s1 then amount else 0)
                                       + (if x = sig_identifier e s2 then amount else 0)) \<and>
     (\<forall>x y. allowance tk' x y = allowance tk x y
              - (if x = sig_identifier e s1 \<and> y = self_ident e then amount else 0)
              - (if x = sig_identifier e s2 \<and> y = self_ident e then amount else 0))"
proof -
  from battle_settlement [OF assms] obtain st addr tk tk1 tk2 tk3 where
    tok: "get_token (data w) = Inr addr" and tk: "tokens w addr = Some tk" and
    x1: "xfer_from (self_ident e) 0 (sig_identifier e s1) (self_ident e) amount tk = Inr tk1" and
    x2: "xfer_from (self_ident e) 0 (sig_identifier e s2) (self_ident e) amount tk1 = Inr tk2" and
    x3: "xfer (self_ident e) 0 (sig_identifier e s2) (amount * 2) tk2 = Inr tk3" and
    w': "tokens w' = (tokens w)(addr \<mapsto> tk3)"
    by blast
  have "balance tk3 x = balance tk x - (if x = sig_identifier e s1 then amount else 0)
                                     + (if x = sig_identifier e s2 then amount else 0)" for x
    using transfer_effects(1) [OF x1, of x] transfer_effects(1) [OF x2, of x]
      transfer_effects(3) [OF x3, of x]
    by simp
  moreover have "allowance tk3 x y = allowance tk x y
      - (if x = sig_identifier e s1 \<and> y = self_ident e then amount else 0)
      - (if x = sig_identifier e s2 \<and> y = self_ident e then amount else 0)" for x y
    using transfer_effects(2) [OF x1, of x y] transfer_effects(2) [OF x2, of x y]
      transfer_effects(4) [OF x3]
    by simp
  ultimately show ?thesis
    using tok tk w' by auto
qed

text \<open>
  C28. Escrow before payout (spec section 8): whenever the payout \<open>token.xfer\<close> is
  called, both escrow transfers were called before it and accepted by the token contract,
  after both authorizations passed; the log is then exactly escrow 1, escrow 2, payout.
\<close>

theorem payout_after_escrows:
  assumes "CallXfer to a \<in> set (fst (battle_calls e w s1 s2 amount))"
  shows "\<exists>st addr w2 w3.
     battle_auth e (data w) s1 s2 amount = Inr st \<and> get_token st = Inr addr \<and>
     call_token (w\<lparr>data := st\<rparr>) addr
       (xfer_from (self_ident e) 0 (sig_identifier e s1) (self_ident e) amount) = Inr w2 \<and>
     call_token w2 addr
       (xfer_from (self_ident e) 0 (sig_identifier e s2) (self_ident e) amount) = Inr w3 \<and>
     fst (battle_calls e w s1 s2 amount) =
       [CallXferFrom (sig_identifier e s1) (self_ident e) amount,
        CallXferFrom (sig_identifier e s2) (self_ident e) amount, CallXfer to a]"
  using assms
  by (auto simp: battle_calls_def Let_def split: sum.splits prod.splits)

text \<open>
  C29. No funds move before both proofs are checked (spec section 4.2 step 5): if the
  battle issues any token call, both authorizations and both nonce consumptions passed
  and the configured token was read, and the first call is the escrow of player 1's
  stake.
\<close>

theorem no_token_call_before_auth:
  assumes "fst (battle_calls e w s1 s2 amount) \<noteq> []"
  shows "\<exists>st addr. battle_auth e (data w) s1 s2 amount = Inr st \<and> get_token st = Inr addr \<and>
     hd (fst (battle_calls e w s1 s2 amount)) =
       CallXferFrom (sig_identifier e s1) (self_ident e) amount"
  using assms by (auto simp: battle_calls_def Let_def split: sum.splits prod.splits)

end
