(* ===== verification/Interleaving.thy ===== *)
theory Interleaving
  imports ByteBattle
begin

text \<open>
  Independent contests in either order. The host runs one invocation at a time (spec
  section 5), so two battles submitted in the same ledger are serialized in some order.
  When their four players are distinct and none of them is the contract itself, the order
  does not matter: if one order succeeds for both, so does the other, with the same two
  replies and the same final world. The proof goes through closed forms of the two halves
  of \<open>battle\<close>: \<open>battle_auth\<close> as the writes \<open>nset\<close> of the consumed nonces (which
  commute at distinct identities), and \<open>settle\<close>, the escrow and payout transfers of lines
  68--119, as explicit conditions and a balance and allowance update (which commute when
  the players are disjoint, because each battle leaves the contract's balance unchanged).
  The same closed forms show what the order of the two proofs within one battle does:
  the authorization and the escrows do not depend on it, the payee does.
\<close>

text \<open>The nonce write of \<open>verify_and_consume_nonce\<close> for one proof: none for an invoker.\<close>
definition nset :: "signature \<Rightarrow> ident \<Rightarrow> i64 \<Rightarrow> store \<Rightarrow> store" where
  "nset s who n st = (if s = Invoker then st else set_nonce st who n)"

text \<open>The token calls of lines 68--119: the two escrows and the payout to \<open>winner\<close>.\<close>
definition settle :: "ident \<Rightarrow> ident \<Rightarrow> ident \<Rightarrow> ident \<Rightarrow> int \<Rightarrow> token_state \<Rightarrow> token_error + token_state" where
  "settle me id1 id2 winner amount tk =
     bind_res (xfer_from me 0 id1 me amount tk) (\<lambda>tk1.
     bind_res (xfer_from me 0 id2 me amount tk1) (\<lambda>tk2.
     xfer me 0 winner (amount * 2) tk2))"

section \<open>Closed forms and commutation of the two halves\<close>

lemma get_nonce_nset [simp]:
  "get_nonce (nset s who n st) who' =
   (if s \<noteq> Invoker \<and> who' = who then Inr n else get_nonce st who')"
  by (simp add: nset_def)

lemma nset_commute:
  "who \<noteq> who' \<Longrightarrow> nset s who n (nset s' who' n' st) = nset s' who' n' (nset s who n st)"
  by (simp add: nset_def set_nonce_commute)

lemma battle_auth_Inr_iff:
  "battle_auth e st s1 s2 amount = Inr st' \<longleftrightarrow>
   (\<exists>n1 n2. get_nonce st (sig_identifier e s1) = Inr n1 \<and> get_nonce st (sig_identifier e s2) = Inr n2 \<and>
      verify e s1 ''battle''
        [RId (sig_identifier e s1), RI64 n1, RId (sig_identifier e s2), RBigInt amount] = Inr () \<and>
      verify e s2 ''battle''
        [RId (sig_identifier e s2), RI64 n2, RId (sig_identifier e s1), RBigInt amount] = Inr () \<and>
      (s1 = Invoker \<longrightarrow> n1 = 0) \<and> (s2 = Invoker \<longrightarrow> n2 = 0) \<and>
      (s1 \<noteq> Invoker \<and> s2 \<noteq> Invoker \<longrightarrow> sig_identifier e s1 \<noteq> sig_identifier e s2) \<and>
      st' = nset s2 (sig_identifier e s2) (n2 + 1) (nset s1 (sig_identifier e s1) (n1 + 1) st))"
  by (cases "s1 = Invoker"; cases "s2 = Invoker")
     (auto simp: battle_auth_def Let_def result_simps vacn_Inr_iffs nset_def)

lemma battle_auth_commute:
  assumes A: "battle_auth e1 st a1 a2 x = Inr stA" and B: "battle_auth e2 stA b1 b2 y = Inr st2"
    and disj: "{sig_identifier e1 a1, sig_identifier e1 a2} \<inter> {sig_identifier e2 b1, sig_identifier e2 b2} = {}"
  shows "\<exists>stB. battle_auth e2 st b1 b2 y = Inr stB \<and> battle_auth e1 stB a1 a2 x = Inr st2"
proof -
  from A obtain n1 n2 where nA: "get_nonce st (sig_identifier e1 a1) = Inr n1"
      "get_nonce st (sig_identifier e1 a2) = Inr n2"
    and vA: "verify e1 a1 ''battle''
        [RId (sig_identifier e1 a1), RI64 n1, RId (sig_identifier e1 a2), RBigInt x] = Inr ()"
      "verify e1 a2 ''battle''
        [RId (sig_identifier e1 a2), RI64 n2, RId (sig_identifier e1 a1), RBigInt x] = Inr ()"
    and cA: "a1 = Invoker \<longrightarrow> n1 = 0" "a2 = Invoker \<longrightarrow> n2 = 0"
      "a1 \<noteq> Invoker \<and> a2 \<noteq> Invoker \<longrightarrow> sig_identifier e1 a1 \<noteq> sig_identifier e1 a2"
    and stA: "stA = nset a2 (sig_identifier e1 a2) (n2 + 1) (nset a1 (sig_identifier e1 a1) (n1 + 1) st)"
    unfolding battle_auth_Inr_iff by blast
  from B obtain m1 m2 where nB: "get_nonce stA (sig_identifier e2 b1) = Inr m1"
      "get_nonce stA (sig_identifier e2 b2) = Inr m2"
    and vB: "verify e2 b1 ''battle''
        [RId (sig_identifier e2 b1), RI64 m1, RId (sig_identifier e2 b2), RBigInt y] = Inr ()"
      "verify e2 b2 ''battle''
        [RId (sig_identifier e2 b2), RI64 m2, RId (sig_identifier e2 b1), RBigInt y] = Inr ()"
    and cB: "b1 = Invoker \<longrightarrow> m1 = 0" "b2 = Invoker \<longrightarrow> m2 = 0"
      "b1 \<noteq> Invoker \<and> b2 \<noteq> Invoker \<longrightarrow> sig_identifier e2 b1 \<noteq> sig_identifier e2 b2"
    and st2: "st2 = nset b2 (sig_identifier e2 b2) (m2 + 1) (nset b1 (sig_identifier e2 b1) (m1 + 1) stA)"
    unfolding battle_auth_Inr_iff by blast
  have d11: "sig_identifier e1 a1 \<noteq> sig_identifier e2 b1"
    and d12: "sig_identifier e1 a1 \<noteq> sig_identifier e2 b2"
    and d21: "sig_identifier e1 a2 \<noteq> sig_identifier e2 b1"
    and d22: "sig_identifier e1 a2 \<noteq> sig_identifier e2 b2"
    using disj by blast+
  define stB where
    "stB = nset b2 (sig_identifier e2 b2) (m2 + 1) (nset b1 (sig_identifier e2 b1) (m1 + 1) st)"
  have "get_nonce st (sig_identifier e2 b1) = Inr m1" "get_nonce st (sig_identifier e2 b2) = Inr m2"
    using nB d11 d12 d21 d22 by (simp_all add: stA)
  with vB cB have B': "battle_auth e2 st b1 b2 y = Inr stB"
    unfolding battle_auth_Inr_iff stB_def by blast
  have "get_nonce stB (sig_identifier e1 a1) = Inr n1" "get_nonce stB (sig_identifier e1 a2) = Inr n2"
    using nA d11 d12 d21 d22 by (simp_all add: stB_def)
  moreover have "nset a2 (sig_identifier e1 a2) (n2 + 1) (nset a1 (sig_identifier e1 a1) (n1 + 1) stB) = st2"
    unfolding stB_def st2 stA
    by (simp only: nset_commute [OF d11] nset_commute [OF d12] nset_commute [OF d21]
        nset_commute [OF d22])
  ultimately have "battle_auth e1 stB a1 a2 x = Inr st2"
    using vA cA unfolding battle_auth_Inr_iff by blast
  with B' show ?thesis by blast
qed

lemma settle_Inr_iff:
  assumes "me \<noteq> i1" "me \<noteq> i2"
  shows "settle me i1 i2 i2 x tk = Inr tk' \<longleftrightarrow>
   0 \<le> x \<and> x \<le> allowance tk i1 me \<and> x \<le> balance tk i1 \<and>
   x \<le> allowance tk i2 me - (if i2 = i1 then x else 0) \<and>
   x \<le> balance tk i2 - (if i2 = i1 then x else 0) \<and> 0 \<le> balance tk me \<and>
   tk' = tk\<lparr>allowance := (\<lambda>u v. allowance tk u v - (if v = me \<and> u = i1 then x else 0)
                                                 - (if v = me \<and> u = i2 then x else 0)),
           balance := (\<lambda>u. balance tk u - (if u = i1 then x else 0) + (if u = i2 then x else 0))\<rparr>"
  using assms
  by (auto simp: settle_def result_simps fun_eq_iff)

lemma settle_commute:
  assumes A: "settle me a1 a2 a2 x tk = Inr tkA" and B: "settle me b1 b2 b2 y tkA = Inr tk2"
    and disj: "{a1, a2} \<inter> {b1, b2} = {}" and me: "me \<notin> {a1, a2, b1, b2}"
  shows "\<exists>tkB. settle me b1 b2 b2 y tk = Inr tkB \<and> settle me a1 a2 a2 x tkB = Inr tk2"
proof -
  from me have ma: "me \<noteq> a1" "me \<noteq> a2" and mb: "me \<noteq> b1" "me \<noteq> b2" by simp_all
  from disj have d: "a1 \<noteq> b1" "a1 \<noteq> b2" "a2 \<noteq> b1" "a2 \<noteq> b2" by blast+
  from A B show ?thesis
    unfolding settle_Inr_iff [OF ma] settle_Inr_iff [OF mb]
    using d by (auto simp: fun_eq_iff)
qed

lemma battle_Inr_settle:
  "battle e w s1 s2 amount = Inr (w', r) \<longleftrightarrow>
   (\<exists>st addr tk tk' k1 k2 i1 i2.
      battle_auth e (data w) s1 s2 amount = Inr st \<and> get_token (data w) = Inr addr \<and>
      tokens w addr = Some tk \<and>
      settle (self_ident e) (sig_identifier e s1) (sig_identifier e s2) (sig_identifier e s2)
        amount tk = Inr tk' \<and>
      battle_outcome e (sig_identifier e s1) (sig_identifier e s2) =
        Inr (k1, k2, i1, i2, sig_identifier e s2) \<and>
      w' = w\<lparr>data := st, tokens := (tokens w)(addr \<mapsto> tk')\<rparr> \<and> r = (k1, k2, i1, i2))"
  (is "?lhs \<longleftrightarrow> ?rhs")
proof
  assume ok: ?lhs
  from battle_settlement [OF ok] obtain st addr tk tk1 tk2 tk3 where
    auth: "battle_auth e (data w) s1 s2 amount = Inr st" and dw: "data w' = st" and
    tok: "get_token (data w) = Inr addr" and tk: "tokens w addr = Some tk" and
    x1: "xfer_from (self_ident e) 0 (sig_identifier e s1) (self_ident e) amount tk = Inr tk1" and
    x2: "xfer_from (self_ident e) 0 (sig_identifier e s2) (self_ident e) amount tk1 = Inr tk2" and
    x3: "xfer (self_ident e) 0 (sig_identifier e s2) (amount * 2) tk2 = Inr tk3" and
    tw: "tokens w' = (tokens w)(addr \<mapsto> tk3)"
    by blast
  from ok obtain k1 k2 i1 i2 win where
    out: "battle_outcome e (sig_identifier e s1) (sig_identifier e s2) = Inr (k1, k2, i1, i2, win)"
    and r: "r = (k1, k2, i1, i2)"
    unfolding battle_Inr by blast
  from out have "win = sig_identifier e s2" by (auto simp: battle_outcome_Inr)
  moreover have "settle (self_ident e) (sig_identifier e s1) (sig_identifier e s2)
      (sig_identifier e s2) amount tk = Inr tk3"
    using x1 x2 x3 by (simp add: settle_def)
  moreover have "w' = w\<lparr>data := st, tokens := (tokens w)(addr \<mapsto> tk3)\<rparr>"
    using dw tw by (cases w') simp
  ultimately show ?rhs
    using auth tok tk out r by blast
next
  assume ?rhs
  then obtain st addr tk tk' k1 k2 i1 i2 where
    auth: "battle_auth e (data w) s1 s2 amount = Inr st" and
    tok: "get_token (data w) = Inr addr" and tk: "tokens w addr = Some tk" and
    set: "settle (self_ident e) (sig_identifier e s1) (sig_identifier e s2) (sig_identifier e s2)
        amount tk = Inr tk'" and
    out: "battle_outcome e (sig_identifier e s1) (sig_identifier e s2) =
        Inr (k1, k2, i1, i2, sig_identifier e s2)" and
    w': "w' = w\<lparr>data := st, tokens := (tokens w)(addr \<mapsto> tk')\<rparr>" and r: "r = (k1, k2, i1, i2)"
    by blast
  from set obtain tk1 tk2 where
    x1: "xfer_from (self_ident e) 0 (sig_identifier e s1) (self_ident e) amount tk = Inr tk1" and
    x2: "xfer_from (self_ident e) 0 (sig_identifier e s2) (self_ident e) amount tk1 = Inr tk2" and
    x3: "xfer (self_ident e) 0 (sig_identifier e s2) (amount * 2) tk2 = Inr tk'"
    by (auto simp: settle_def result_simps)
  have tok': "get_token st = Inr addr"
    using tok get_token_cong [where st' = st and st = "data w", OF battle_auth_Token [OF auth]]
    by simp
  have c1: "call_token (w\<lparr>data := st\<rparr>) addr
      (xfer_from (self_ident e) 0 (sig_identifier e s1) (self_ident e) amount) =
      Inr (w\<lparr>data := st, tokens := (tokens w)(addr \<mapsto> tk1)\<rparr>)"
    using tk x1 by (simp add: call_token_def)
  have c2: "call_token (w\<lparr>data := st, tokens := (tokens w)(addr \<mapsto> tk1)\<rparr>) addr
      (xfer_from (self_ident e) 0 (sig_identifier e s2) (self_ident e) amount) =
      Inr (w\<lparr>data := st, tokens := (tokens w)(addr \<mapsto> tk2)\<rparr>)"
    using x2 by (simp add: call_token_def)
  have c3: "call_token (w\<lparr>data := st, tokens := (tokens w)(addr \<mapsto> tk2)\<rparr>) addr
      (xfer (self_ident e) 0 (sig_identifier e s2) (amount * 2)) = Inr w'"
    using x3 w' by (simp add: call_token_def)
  show ?lhs
    unfolding battle_Inr
    using auth tok' c1 c2 c3 out r by blast
qed

lemma battle_auth_swap:
  assumes "battle_auth e st s1 s2 amount = Inr st'"
    and "sig_identifier e s1 \<noteq> sig_identifier e s2"
  shows "battle_auth e st s2 s1 amount = Inr st'"
proof -
  from assms(1) obtain n1 n2 where
    facts: "get_nonce st (sig_identifier e s1) = Inr n1" "get_nonce st (sig_identifier e s2) = Inr n2"
      "verify e s1 ''battle''
        [RId (sig_identifier e s1), RI64 n1, RId (sig_identifier e s2), RBigInt amount] = Inr ()"
      "verify e s2 ''battle''
        [RId (sig_identifier e s2), RI64 n2, RId (sig_identifier e s1), RBigInt amount] = Inr ()"
      "s1 = Invoker \<longrightarrow> n1 = 0" "s2 = Invoker \<longrightarrow> n2 = 0"
    and st': "st' = nset s2 (sig_identifier e s2) (n2 + 1) (nset s1 (sig_identifier e s1) (n1 + 1) st)"
    unfolding battle_auth_Inr_iff by blast
  have "st' = nset s1 (sig_identifier e s1) (n1 + 1) (nset s2 (sig_identifier e s2) (n2 + 1) st)"
    unfolding st' using nset_commute [OF assms(2)] by simp
  with facts assms(2) show ?thesis
    unfolding battle_auth_Inr_iff by (intro exI [of _ n2] exI [of _ n1]) simp
qed

lemma settle_swap:
  assumes "settle me i1 i2 i2 x tk = Inr tk'" and "i1 \<noteq> i2" and "me \<noteq> i1" "me \<noteq> i2"
  shows "\<exists>tk''. settle me i2 i1 i1 x tk = Inr tk'' \<and>
     balance tk'' i1 = balance tk i1 + x \<and> balance tk'' i2 = balance tk i2 - x "
  using assms(1)
  unfolding settle_Inr_iff [OF assms(3,4)] settle_Inr_iff [OF assms(4,3)]
  using assms(2) by (auto simp: fun_eq_iff)

text \<open>Who invokes the contract matters only to an \<open>Invoker\<close> proof.\<close>

lemma sig_identifier_relay:
  "s \<noteq> Invoker \<Longrightarrow> sig_identifier (e\<lparr>invoker := v\<rparr>) s = sig_identifier e s"
  by (cases s) simp_all

lemma verify_relay: "verify (e\<lparr>invoker := v\<rparr>) s name args = verify e s name args"
  by (cases s) (simp_all add: signature_payload_def verify_account_signatures_def)

lemma vacn_relay:
  "s \<noteq> Invoker \<Longrightarrow>
   verify_and_consume_nonce (e\<lparr>invoker := v\<rparr>) st s n = verify_and_consume_nonce e st s n"
  by (cases s) simp_all

lemma battle_outcome_relay:
  "battle_outcome (e\<lparr>invoker := v\<rparr>) = battle_outcome e"
proof -
  have "player_key (e\<lparr>invoker := v\<rparr>) = player_key e"
  proof (rule ext)+
    fix who i show "player_key (e\<lparr>invoker := v\<rparr>) who i = player_key e who i"
      by (cases who) simp_all
  qed
  then show ?thesis by (simp add: battle_outcome_def fun_eq_iff)
qed

section \<open>Independent battles commute\<close>

text \<open>
  C32. Two successful battles of the same contract whose player identities are disjoint,
  none being the contract, can be run in the other order: both still succeed, with the
  same replies, and the final world (the contract's store and every token contract) is
  the same.
\<close>

theorem battles_commute:
  assumes A: "battle e1 w a1 a2 x = Inr (w1, r1)" and B: "battle e2 w1 b1 b2 y = Inr (w2, r2)"
    and same: "current_contract e2 = current_contract e1"
    and disj: "{sig_identifier e1 a1, sig_identifier e1 a2} \<inter>
               {sig_identifier e2 b1, sig_identifier e2 b2} = {}"
    and me: "self_ident e1 \<notin> {sig_identifier e1 a1, sig_identifier e1 a2,
                                  sig_identifier e2 b1, sig_identifier e2 b2}"
  shows "\<exists>w1'. battle e2 w b1 b2 y = Inr (w1', r2) \<and> battle e1 w1' a1 a2 x = Inr (w2, r1)"
proof -
  from A obtain stA addr tk tkA where
    authA: "battle_auth e1 (data w) a1 a2 x = Inr stA" and tok: "get_token (data w) = Inr addr" and
    tk: "tokens w addr = Some tk" and
    setA: "settle (self_ident e1) (sig_identifier e1 a1) (sig_identifier e1 a2) (sig_identifier e1 a2)
      x tk = Inr tkA" and
    outA: "\<exists>k1 k2 i1 i2. battle_outcome e1 (sig_identifier e1 a1) (sig_identifier e1 a2) =
        Inr (k1, k2, i1, i2, sig_identifier e1 a2) \<and> r1 = (k1, k2, i1, i2)" and
    w1: "w1 = w\<lparr>data := stA, tokens := (tokens w)(addr \<mapsto> tkA)\<rparr>"
    unfolding battle_Inr_settle by blast
  have tokA: "get_token stA = Inr addr"
    using tok get_token_cong [where st' = stA and st = "data w", OF battle_auth_Token [OF authA]]
    by simp
  from B obtain st2 tk2 where
    authB: "battle_auth e2 stA b1 b2 y = Inr st2" and
    setB: "settle (self_ident e1) (sig_identifier e2 b1) (sig_identifier e2 b2) (sig_identifier e2 b2)
      y tkA = Inr tk2" and
    outB: "\<exists>k1 k2 i1 i2. battle_outcome e2 (sig_identifier e2 b1) (sig_identifier e2 b2) =
        Inr (k1, k2, i1, i2, sig_identifier e2 b2) \<and> r2 = (k1, k2, i1, i2)" and
    w2: "w2 = w\<lparr>data := st2, tokens := (tokens w)(addr \<mapsto> tk2)\<rparr>"
    unfolding battle_Inr_settle using w1 tokA same by auto
  obtain stB where authB': "battle_auth e2 (data w) b1 b2 y = Inr stB"
      and authA': "battle_auth e1 stB a1 a2 x = Inr st2"
    using battle_auth_commute [OF authA authB disj] by blast
  have "{sig_identifier e1 a1, sig_identifier e1 a2} \<inter> {sig_identifier e2 b1, sig_identifier e2 b2} = {}"
    by (rule disj)
  then obtain tkB where setB': "settle (self_ident e1) (sig_identifier e2 b1) (sig_identifier e2 b2)
        (sig_identifier e2 b2) y tk = Inr tkB"
      and setA': "settle (self_ident e1) (sig_identifier e1 a1) (sig_identifier e1 a2)
        (sig_identifier e1 a2) x tkB = Inr tk2"
    using settle_commute [OF setA setB _ me] by blast
  have tokB: "get_token stB = Inr addr"
    using tok get_token_cong [where st' = stB and st = "data w", OF battle_auth_Token [OF authB']]
    by simp
  define w1' where "w1' = w\<lparr>data := stB, tokens := (tokens w)(addr \<mapsto> tkB)\<rparr>"
  have "battle e2 w b1 b2 y = Inr (w1', r2)"
    unfolding battle_Inr_settle w1'_def using authB' tok tk setB' outB same by auto
  moreover have "battle e1 w1' a1 a2 x = Inr (w2, r1)"
    unfolding battle_Inr_settle w1'_def using authA' tokB setA' outA w2 by auto
  ultimately show ?thesis by blast
qed


section \<open>Who submits, and in which order\<close>

text \<open>
  C35. Whoever submits the call chooses the winner. \<open>battle\<close> takes the two proofs in
  the order the caller passes them, and the bug of line 94 always pays the second. If a
  battle between two distinct players (neither the contract) succeeds, the same two proofs
  in the other order succeed too, whenever the other player's key is long enough for the
  compare index: the same nonces are consumed, so the store is the same, but the payout
  goes the other way, and the first player ends with the stake won instead of lost.
  Anyone holding both signed proofs, either player included, can therefore pick the
  winner; spec section 8 asks only that eligibility not depend on the order.
\<close>

theorem battle_order_picks_winner:
  assumes ok: "battle e w s1 s2 amount = Inr (w', r)"
    and distinct: "sig_identifier e s1 \<noteq> sig_identifier e s2"
    and me: "self_ident e \<notin> {sig_identifier e s1, sig_identifier e s2}"
    and key2: "(\<exists>k. (sig_identifier e s2 = Ed25519 k \<or> sig_identifier e s2 = Contract k) \<and> length k = 32) \<or>
           (\<exists>a. sig_identifier e s2 = Account a \<and> 48 \<le> length (serialize_account e a))"
  shows "\<exists>w'' r' addr tk tk''. battle e w s2 s1 amount = Inr (w'', r') \<and> data w'' = data w' \<and>
     get_token (data w) = Inr addr \<and> tokens w addr = Some tk \<and> tokens w'' addr = Some tk'' \<and>
     balance tk'' (sig_identifier e s1) = balance tk (sig_identifier e s1) + amount \<and>
     balance tk'' (sig_identifier e s2) = balance tk (sig_identifier e s2) - amount"
proof -
  from ok obtain st addr tk tk' where
    auth: "battle_auth e (data w) s1 s2 amount = Inr st" and tok: "get_token (data w) = Inr addr" and
    tk: "tokens w addr = Some tk" and
    set: "settle (self_ident e) (sig_identifier e s1) (sig_identifier e s2) (sig_identifier e s2)
      amount tk = Inr tk'" and
    w': "w' = w\<lparr>data := st, tokens := (tokens w)(addr \<mapsto> tk')\<rparr>"
    unfolding battle_Inr_settle by blast
  from me have m: "self_ident e \<noteq> sig_identifier e s1" "self_ident e \<noteq> sig_identifier e s2" by simp_all
  obtain tk'' where set': "settle (self_ident e) (sig_identifier e s2) (sig_identifier e s1)
        (sig_identifier e s1) amount tk = Inr tk''"
      and bal: "balance tk'' (sig_identifier e s1) = balance tk (sig_identifier e s1) + amount"
        "balance tk'' (sig_identifier e s2) = balance tk (sig_identifier e s2) - amount"
    using settle_swap [OF set distinct m] by blast
  have "unat (snd (player_key e (sig_identifier e s2) (base_index e))) <
      length (fst (player_key e (sig_identifier e s2) (base_index e)))"
    using key2 player_key_index [of e "sig_identifier e s2"] by (auto split: ident.splits)
  then obtain k1 k2 i1 i2 where out: "battle_outcome e (sig_identifier e s2) (sig_identifier e s1) =
      Inr (k1, k2, i1, i2, sig_identifier e s1)"
    by (auto simp: battle_outcome_Inr bytes_get_def)
  have "battle e w s2 s1 amount =
      Inr (w\<lparr>data := st, tokens := (tokens w)(addr \<mapsto> tk'')\<rparr>, (k1, k2, i1, i2))"
    unfolding battle_Inr_settle
    using battle_auth_swap [OF auth distinct] tok tk set' out by blast
  with w' tok tk bal show ?thesis by auto
qed


text \<open>
  C36. Anyone can submit a battle: when neither proof is an \<open>Invoker\<close> proof, what
  \<open>battle\<close> does (its result, its writes, its token calls, its errors) does not depend on
  the invoker of the call. With C35, whoever sees the two signed proofs before they are
  submitted, a third party included, can submit them in the order that pays the player
  of its choice.
\<close>

theorem battle_relay:
  assumes "s1 \<noteq> Invoker" and "s2 \<noteq> Invoker"
  shows "battle (e\<lparr>invoker := v\<rparr>) w s1 s2 amount = battle e w s1 s2 amount"
  using assms
  by (simp add: battle_def battle_auth_def sig_identifier_relay verify_relay vacn_relay
      battle_outcome_relay)

end
