(* ===== verification/Spec2Isabelle.thy ===== *)
theory Spec2Isabelle
  imports Abstract_Contract Tests Settlement Interleaving
begin

text \<open>
  \<^bold>\<open>A verification development of Soroban Byte Battle\<close> (src/src/lib.rs, src/src/auth.rs).

  \<^bold>\<open>The program.\<close> A Soroban smart contract in which two players each sign the terms of a
  wager (opponent, amount, their own replay-protection nonce); the contract checks both
  authorizations, consumes both nonces, pulls both stakes from the token contract into its
  own custody, picks a winner from one byte of each player's key at an index derived from
  the ledger time, and pays the winner twice the stake. It has two parts: the nonce ledger
  (auth.rs: \<open>get_nonce\<close>, \<open>set_nonce\<close>, \<open>verify_and_consume_nonce\<close>) and the orchestrator
  (lib.rs: \<open>initialize\<close>, \<open>battle\<close>, \<open>nonce\<close>, \<open>token\<close>, \<open>get_token\<close>). They share the
  contract's data store, keyed by \<open>DataKey\<close> (\<open>Nonce(id)\<close>, \<open>Token\<close>). The orchestrator
  calls two collaborators that are not under src/: the \<open>soroban_auth\<close> library (signature
  verification, \<open>Signature::identifier\<close>) and the token contract (\<open>xfer_from\<close>, \<open>xfer\<close>).

  \<^bold>\<open>Theories.\<close>
  \<^item> \<open>Prelude\<close>: \<open>u8\<close>/\<open>u32\<close>/\<open>u64\<close>/\<open>i64\<close> as words, \<open>bytes\<close> as byte lists, the
    \<open>error\<close> type of every abort (panics, host traps, the contract's \<open>Error\<close> enum), the strict
    bind \<open>bind_res\<close>, \<open>check\<close> (a guarded \<open>panic!\<close>), \<open>unwrap\<close>, \<open>run_res\<close> (a sequence
    of fallible steps), and the \<open>result_simps\<close> collection that \<open>simp\<close> uses to run
    through a chain of them.
  \<^item> \<open>Host\<close> (modelled from the spec, not under src/): \<open>ident\<close> (\<open>Identifier\<close>),
    \<open>signature\<close> (\<open>Signature\<close>: \<open>Invoker\<close>, \<open>Ed25519Sig\<close>, \<open>AccountSig\<close>), the canonical
    payload, \<open>verify\<close>, \<open>sig_identifier\<close>, the invocation context \<open>env\<close>, \<open>bytes_get\<close>.
    Cryptography is idealised: a signature value \<open>SignedBy pk msg\<close> verifies exactly against
    \<open>pk\<close> and \<open>msg\<close>. \<open>verify_binding\<close>: one proof cannot verify for two different argument
    lists (when it carries a signature). The account loop \<open>account_weight\<close> is proved
    equal to its declarative contract \<open>account_weight_spec\<close> (strictly increasing keys,
    valid signatures, summed weights).
  \<^item> \<open>Token\<close> (modelled from the spec): the asset ledger's balances and allowances, the
    two transfers the contract calls, with their failure cases, and the effect of \<open>mint\<close>
    and \<open>approve\<close>, which the tests call to set up a contest.
  \<^item> \<open>Auth\<close>: \<open>DataKey\<close>, the store, the well-typedness invariant \<open>store_wf\<close>, and the nonce
    ledger; properties C5--C9.
  \<^item> \<open>ByteBattle\<close>: the \<open>world\<close> (this contract's store and the deployed token contracts),
    the cross-contract call \<open>call_token\<close>, and the entry points; \<open>battle\<close> is the
    composition of \<open>battle_auth\<close> (lines 48--66), two escrow calls, \<open>battle_outcome\<close>
    (lines 84--104, with \<open>player_key\<close> for the \<open>match\<close>) and the payout; properties
    C1, C3, C4, C10--C18, C22, C25, C31 and C34.
  \<^item> \<open>Transactions\<close>: the contract's interface as a \<open>datatype\<close> of calls, \<open>invoke\<close> (one
    invocation of an entry point of the \<open>#[contractimpl]\<close> block, lib.rs lines 33--134,
    with the host's rollback of every write on an abort), \<open>ledger_step\<close> (an invocation
    or another transaction, which may change any token contract's state but not this
    contract's data) and \<open>reachable\<close> (worlds reachable from a fresh deployment);
    properties C19--C21 by rule induction, C24 (no typed storage read ever traps), and
    \<open>run_calls\<close>, a sequence of invocations, with C30 (nonces count successful battles).
  \<^item> \<open>Abstract_Contract\<close>: the contract as spec sections 3--4 state it (a write-once
    configuration slot and a map from identities to unbounded counters, with the spec's
    \<open>verify_and_consume_nonce\<close>, \<open>initialize\<close> and contest steps 1--5), the abstraction
    \<open>abs_store\<close> of a concrete store, a functional refinement lemma per operation, the
    forward simulation of every invocation by an abstract step (C23), and the abstract run
    \<open>spec_run\<close> that a trace of calls with their outcomes determines, in the manner of a
    trace-based model, which every run of the code follows call by call (C33). The
    refinement needs every counter below \<open>i64::MAX\<close>.
  \<^item> \<open>Settlement\<close>: the effect of a successful battle on the asset ledger (C2), and
    \<open>battle_calls\<close>, the entry point instrumented with the log of its token-client calls
    (lib.rs lines 69, 76, 106/113), proved to compute the same result as \<open>battle\<close>
    (lemma \<open>battle_calls_result\<close>), with the order of those calls (C28, C29).
  \<^item> \<open>Interleaving\<close>: closed forms of the two halves of \<open>battle\<close> (the nonce writes
    \<open>nset\<close> and the token calls \<open>settle\<close>), their commutation, giving C32, and what the
    order of the two proofs and the identity of the submitter do (C35, C36).
  \<^item> \<open>Tests\<close>: the six contract tests of src/tests/byte_battle_tests.rs and the helpers
    of src/tests/helper.rs as runs of \<open>invoke\<close>, each a bool-valued function of the
    randomly generated addresses and keys (C26, C27).
  \<^item> this theory: a concrete ledger for the spec's test scenario (two Ed25519 players,
    stake 100, ledger time 1), two more players, an account player, and the witnesses
    of the properties, each evaluated on that ledger in the kernel.

  \<^bold>\<open>Main results.\<close> The outcome computation derives both tie-break keys and both compare
  indices from player 1's identity (lib.rs line 94 matches on \<open>signer1_id\<close>), so it
  compares a byte with itself and \<^emph>\<open>player 2 always wins\<close> (C1). A successful battle
  moves exactly the stake from player 1 to player 2, whatever the keys, and leaves every
  other balance, the contract's included, unchanged (C2); on the spec's scenario, where
  player 1 holds the larger byte, player 2 ends with 200 (the witness of C2). Since the
  proofs can be passed in either order (C35) by anyone (C36), whoever submits the call
  picks the winner. The authorization logic is sound: a proof signed for other terms is
  rejected (C3), a signed proof cannot be replayed, in a battle (C4) or at the ledger (C5);
  the ledger counts accepted proofs exactly (C6--C9).

  \<^bold>\<open>The other properties.\<close> \<open>initialize\<close> stores the address that \<open>token\<close> then
  reads and can run only once (C10, C11); one identity cannot battle itself with a signed
  proof (C12); authorization commutes in the two players (C13); a failed escrow aborts
  the whole battle (C14); the compare index is \<open>timestamp mod 32\<close>, plus 16 for an
  account (C15); the outcome step returns whenever the keys are long enough (C16); an
  invoker proof needs nonce zero (C17); nothing runs before \<open>initialize\<close> (C18). Over any
  interleaving of transactions the store stays well-typed (C19), the token address never
  changes once set (C20) and each nonce moves only to its successor (C21). A correctly
  signed, funded and approved battle of two Ed25519 players does return (C22), so the
  safety properties above are not vacuous.

  \<^bold>\<open>Refinement, typing, tests.\<close> Read through \<open>abs_store\<close>, every invocation is a
  step of the spec's abstract contract and \<open>nonce\<close>/\<open>token\<close> return the abstract values
  (C23). Every run of invocations whose counters leave a margin of two per invocation
  follows the abstract run its calls and outcomes determine, call by call: each committed
  call is accepted by the abstract contract and moves its state exactly, each read returns
  the abstract value of that moment, each aborted call changes nothing (C33). No entry
  point ever aborts with a conversion error in a reachable world (C24). Over any sequence
  of invocations an identity's nonce advances by exactly the number of successful battles
  it signed (C30). An account player whose key serialization is too short for its biased
  index makes the outcome step panic (C25). The contract never checks the sign of the
  stake: a negative stake passes authorization and is rejected only by the token
  contract's escrow (C34). \<open>test_battle\<close> passes for every pair of distinct keys, because
  its oracle compares the two returned keys, both player 1's, so it cannot detect the bug
  of C1 (C26); the other five tests pass on every input (C27).

  \<^bold>\<open>Settlement.\<close> The payout is called only after both escrows were called and
  accepted, in that order (C28), and no token call is made before both proofs are checked
  and both nonces consumed (C29).

  \<^bold>\<open>Accounts, interleaving, submission.\<close> An account player passes authorization only
  with a signature set that meets the account's policy over the exact battle terms (C31).
  Two battles with disjoint players succeed in either order with the same replies and the
  same final world, so the serialization the host chooses between independent contests
  does not matter (C32). Within one battle the order of the two proofs does matter: the
  same proofs in the other order succeed as well, consume the same nonces, and pay the
  other player (C35); and with signed proofs nothing depends on who invokes the contract
  (C36).

  \<^bold>\<open>Bounds and fuel.\<close> No loop of the source is unbounded: the only loop (over an account's
  signatures) is structural recursion on the list, so no fuel is needed. Nonces are
  \<open>i64\<close> words and \<open>nonce + 1\<close> wraps at \<open>2^64\<close> (the crate's overflow-check setting is not
  in the repository; reaching \<open>i64::MAX\<close> needs \<open>2^63\<close> accepted proofs); the predicate
  \<open>below_max\<close> of \<open>Abstract_Contract\<close> is the bound under which the unbounded spec
  counters and the words agree; at \<open>i64::MAX\<close> the wrapping increment would send a
  counter to \<open>i64::MIN\<close>. Compare indices are \<open>u32\<close> words below 48.

  \<^bold>\<open>Not modelled.\<close> Ed25519 itself (idealised as above); the XDR encoding of account ids
  (a field \<open>serialize_account\<close> of \<open>env\<close>); the token contract's own authorization of
  \<open>mint\<close> and \<open>approve\<close> (admin check, signatures and token nonces), its admin and
  metadata entry points (between invocations the token state changes at will); the test
  \<open>test\<close>, which only prints an account serialization, and the random generation of the
  tests' inputs (the theorems quantify over every generated value); the imports and
  module declarations of lib.rs lines 1--13 (the token client is generated from a wasm
  file).
\<close>

section \<open>A concrete ledger: the spec's test scenario\<close>

text \<open>
  Two Ed25519 players whose keys differ at byte 1, where player 1's byte (9) is the larger;
  ledger time 1; both minted 100 and both approved the contract for 100; stake 100.
\<close>

abbreviation ex_key1 :: bytes where "ex_key1 \<equiv> 0 # 9 # replicate 30 0"
abbreviation ex_key2 :: bytes where "ex_key2 \<equiv> 0 # 5 # replicate 30 0"
abbreviation ex_contract :: bytes where "ex_contract \<equiv> replicate 32 7"
abbreviation ex_token_addr :: bytes where "ex_token_addr \<equiv> replicate 32 3"

abbreviation ex_env :: env where
  "ex_env \<equiv> \<lparr>invoker = Account (replicate 32 1), current_contract = ex_contract,
     network_passphrase = [], timestamp = 1, accounts = Map.empty,
     serialize_account = (\<lambda>a. replicate 16 0 @ a)\<rparr>"

abbreviation ex_sig1 :: signature where
  "ex_sig1 \<equiv> Ed25519Sig \<lparr>public_key = ex_key1, signature = SignedBy ex_key1
     (signature_payload ex_env ''battle'' [RId (Ed25519 ex_key1), RI64 0, RId (Ed25519 ex_key2), RBigInt 100])\<rparr>"

abbreviation ex_sig2 :: signature where
  "ex_sig2 \<equiv> Ed25519Sig \<lparr>public_key = ex_key2, signature = SignedBy ex_key2
     (signature_payload ex_env ''battle'' [RId (Ed25519 ex_key2), RI64 0, RId (Ed25519 ex_key1), RBigInt 100])\<rparr>"

abbreviation ex_ledger :: token_state where
  "ex_ledger \<equiv> \<lparr>balance = (\<lambda>x. if x = Ed25519 ex_key1 \<or> x = Ed25519 ex_key2 then 100 else 0),
     allowance = (\<lambda>f s. if s = Contract ex_contract then 100 else 0)\<rparr>"

abbreviation ex_world :: world where
  "ex_world \<equiv> \<lparr>data = [Token \<mapsto> SBytes ex_token_addr], tokens = [ex_token_addr \<mapsto> ex_ledger]\<rparr>"

text \<open>Player 1's proof for the same opponent but a stake of 90, and the store after one
  accepted proof of player 1.\<close>

abbreviation ex_sig1_90 :: signature where
  "ex_sig1_90 \<equiv> Ed25519Sig \<lparr>public_key = ex_key1, signature = SignedBy ex_key1
     (signature_payload ex_env ''battle'' [RId (Ed25519 ex_key1), RI64 0, RId (Ed25519 ex_key2), RBigInt 90])\<rparr>"

abbreviation ex_store1 :: store where
  "ex_store1 \<equiv> [Nonce (Ed25519 ex_key1) \<mapsto> SI64 1]"

text \<open>Variants: player 1 holds only 50 tokens; the invoker's account has consumed one
  signed proof; the contract is not initialized; the store after both players' proofs.\<close>

abbreviation ex_world_poor :: world where
  "ex_world_poor \<equiv> ex_world\<lparr>tokens := [ex_token_addr \<mapsto>
     ex_ledger\<lparr>balance := (balance ex_ledger)(Ed25519 ex_key1 := 50)\<rparr>]\<rparr>"

abbreviation ex_world_used :: world where
  "ex_world_used \<equiv> ex_world\<lparr>data := [Token \<mapsto> SBytes ex_token_addr,
     Nonce (Account (replicate 32 1)) \<mapsto> SI64 1]\<rparr>"

abbreviation ex_world_uninit :: world where
  "ex_world_uninit \<equiv> ex_world\<lparr>data := Map.empty\<rparr>"

abbreviation ex_auth_store :: store where
  "ex_auth_store \<equiv> [Token \<mapsto> SBytes ex_token_addr, Nonce (Ed25519 ex_key1) \<mapsto> SI64 1,
     Nonce (Ed25519 ex_key2) \<mapsto> SI64 1]"

text \<open>Two more Ed25519 players, a ledger where all four hold and have approved 100, and the
  proofs for a second contest between players 3 and 4.\<close>

abbreviation ex_key3 :: bytes where "ex_key3 \<equiv> 0 # 7 # replicate 30 0"
abbreviation ex_key4 :: bytes where "ex_key4 \<equiv> 0 # 3 # replicate 30 0"

abbreviation ex_sig3 :: signature where
  "ex_sig3 \<equiv> Ed25519Sig \<lparr>public_key = ex_key3, signature = SignedBy ex_key3
     (signature_payload ex_env ''battle'' [RId (Ed25519 ex_key3), RI64 0, RId (Ed25519 ex_key4), RBigInt 50])\<rparr>"

abbreviation ex_sig4 :: signature where
  "ex_sig4 \<equiv> Ed25519Sig \<lparr>public_key = ex_key4, signature = SignedBy ex_key4
     (signature_payload ex_env ''battle'' [RId (Ed25519 ex_key4), RI64 0, RId (Ed25519 ex_key3), RBigInt 50])\<rparr>"

abbreviation ex_world4 :: world where
  "ex_world4 \<equiv> ex_world\<lparr>tokens := [ex_token_addr \<mapsto>
     \<lparr>balance = (\<lambda>x. if x = Ed25519 ex_key1 \<or> x = Ed25519 ex_key2 \<or> x = Ed25519 ex_key3 \<or>
                       x = Ed25519 ex_key4 then 100 else 0),
      allowance = (\<lambda>f s. if s = Contract ex_contract then 100 else 0)\<rparr>]\<rparr>"

text \<open>An account player: account \<open>ex_acct\<close>, whose only signer is player 1's key with
  weight 1 and medium threshold 1, battling player 2.\<close>

abbreviation ex_acct :: account_id where "ex_acct \<equiv> replicate 32 5"

abbreviation ex_env_acc :: env where
  "ex_env_acc \<equiv> ex_env\<lparr>accounts := [ex_acct \<mapsto>
     \<lparr>medium_threshold = 1, signer_weight = (\<lambda>k. if k = ex_key1 then 1 else 0)\<rparr>]\<rparr>"

abbreviation ex_sig_acc :: signature where
  "ex_sig_acc \<equiv> AccountSig \<lparr>account_id = ex_acct, signatures =
     [\<lparr>public_key = ex_key1, signature = SignedBy ex_key1 (signature_payload ex_env_acc ''battle''
        [RId (Account ex_acct), RI64 0, RId (Ed25519 ex_key2), RBigInt 100])\<rparr>]\<rparr>"

abbreviation ex_sig2_acc :: signature where
  "ex_sig2_acc \<equiv> Ed25519Sig \<lparr>public_key = ex_key2, signature = SignedBy ex_key2
     (signature_payload ex_env_acc ''battle'' [RId (Ed25519 ex_key2), RI64 0, RId (Account ex_acct), RBigInt 100])\<rparr>"

text \<open>Both players' proofs for a stake of -5.\<close>

abbreviation ex_sig1_neg :: signature where
  "ex_sig1_neg \<equiv> Ed25519Sig \<lparr>public_key = ex_key1, signature = SignedBy ex_key1
     (signature_payload ex_env ''battle'' [RId (Ed25519 ex_key1), RI64 0, RId (Ed25519 ex_key2), RBigInt (-5)])\<rparr>"

abbreviation ex_sig2_neg :: signature where
  "ex_sig2_neg \<equiv> Ed25519Sig \<lparr>public_key = ex_key2, signature = SignedBy ex_key2
     (signature_payload ex_env ''battle'' [RId (Ed25519 ex_key2), RI64 0, RId (Ed25519 ex_key1), RBigInt (-5)])\<rparr>"

text \<open>A run: a battle, its replay, and a read of player 1's nonce.\<close>

abbreviation ex_run :: "(env \<times> call) list" where
  "ex_run \<equiv> [(ex_env, Battle ex_sig1 ex_sig2 100), (ex_env, Battle ex_sig1 ex_sig2 100),
             (ex_env, NonceOf (Ed25519 ex_key1))]"

lemmas eval_defs = battle_def battle_auth_def Let_def get_nonce_def data_get_i64_def
  signature_payload_def verify_sig_ed25519_def get_token_def data_get_bytes_def call_token_def
  xfer_from_def xfer_def spend_allowance_def spend_balance_def receive_balance_def
  battle_outcome_def bytes_get_def set_nonce_def

section \<open>Witnesses of the properties\<close>

lemma ex_outcome:
  "battle_outcome ex_env (Ed25519 ex_key1) (Ed25519 ex_key2) =
   Inr (ex_key1, ex_key1, 1, 1, Ed25519 ex_key2)"
  by (simp add: eval_defs)

theorem battle_outcome_player2_wins_witness:
  "battle_outcome ex_env (Ed25519 ex_key1) (Ed25519 ex_key2) =
     Inr (ex_key1, ex_key1, 1, 1, Ed25519 ex_key2) \<and>
   Ed25519 ex_key2 = Ed25519 ex_key2 \<and> ex_key1 = ex_key1 \<and> (1::u32) = 1"
  using ByteBattle.battle_outcome_player2_wins [OF ex_outcome] ex_outcome by simp

lemma ex_battle_Inr: "\<exists>w' r. battle ex_env ex_world ex_sig1 ex_sig2 100 = Inr (w', r)"
proof -
  have "\<exists>x. battle ex_env ex_world ex_sig1 ex_sig2 100 = Inr x"
    by (simp add: eval_defs)
  then show ?thesis by fastforce
qed

theorem battle_mismatch_rejected_witness:
  "store_wf (data ex_world) \<and> binding_sig ex_env ex_sig1_90 \<and>
   verify ex_env ex_sig1_90 ''battle''
     [RId (sig_identifier ex_env ex_sig1_90), RI64 0, RId (Ed25519 ex_key2), RBigInt 90] = Inr () \<and>
   battle ex_env ex_world ex_sig1_90 ex_sig2 100 = Inl InvalidAuthorization"
proof -
  have wf: "store_wf (data ex_world)" by simp
  have b: "binding_sig ex_env ex_sig1_90" by (simp add: binding_sig_def)
  have v: "verify ex_env ex_sig1_90 ''battle''
     [RId (sig_identifier ex_env ex_sig1_90), RI64 0, RId (Ed25519 ex_key2), RBigInt 90] = Inr ()"
    by (simp add: verify_sig_ed25519_def)
  have d: "Ed25519 ex_key2 \<noteq> sig_identifier ex_env ex_sig2 \<or> (90::int) \<noteq> 100" by simp
  show ?thesis using ByteBattle.battle_mismatch_rejected [OF wf b v d] wf b v by simp
qed

theorem battle_no_replay_witness:
  "\<exists>w' r. battle ex_env ex_world ex_sig1 ex_sig2 100 = Inr (w', r) \<and>
     binding_sig ex_env ex_sig1 \<and> (\<forall>x. battle ex_env w' ex_sig1 ex_sig2 100 \<noteq> Inr x)"
proof -
  obtain w' r where ok: "battle ex_env ex_world ex_sig1 ex_sig2 100 = Inr (w', r)"
    using ex_battle_Inr by blast
  have b: "binding_sig ex_env ex_sig1 \<or> binding_sig ex_env ex_sig2"
    by (simp add: binding_sig_def)
  have b1: "binding_sig ex_env ex_sig1" by (simp add: binding_sig_def)
  have "\<forall>x. battle ex_env w' ex_sig1 ex_sig2 100 \<noteq> Inr x"
    by (rule ByteBattle.battle_no_replay [OF ok b])
  with ok b1 show ?thesis by blast
qed

lemma ex_vacn: "verify_and_consume_nonce ex_env Map.empty ex_sig1 0 = Inr ex_store1"
  by (simp add: get_nonce_def data_get_i64_def set_nonce_def)

theorem vacn_no_replay_witness:
  "verify_and_consume_nonce ex_env Map.empty ex_sig1 0 = Inr ex_store1 \<and>
   verify_and_consume_nonce ex_env ex_store1 ex_sig1 0 = Inl IncorrectNonce"
  using Auth.vacn_no_replay [OF _ ex_vacn] ex_vacn by simp

theorem vacn_consume_roundtrip_witness:
  "verify_and_consume_nonce ex_env Map.empty ex_sig1 0 = Inr ex_store1 \<and>
   get_nonce ex_store1 (Ed25519 ex_key1) = Inr 1 \<and>
   get_nonce ex_store1 (Ed25519 ex_key2) = get_nonce Map.empty (Ed25519 ex_key2)"
  using Auth.vacn_consume_roundtrip [OF _ ex_vacn] ex_vacn by simp

theorem vacn_wrong_nonce_rejected_witness:
  "get_nonce Map.empty (Ed25519 ex_key1) = Inr 0 \<and>
   verify_and_consume_nonce ex_env Map.empty ex_sig1 5 = Inl IncorrectNonce \<and>
   verify_and_consume_nonce ex_env Map.empty Invoker 3 = Inl IncorrectNonceForInvoker"
proof -
  have g: "get_nonce Map.empty (sig_identifier ex_env ex_sig1) = Inr 0"
    by (simp add: get_nonce_def data_get_i64_def)
  from Auth.vacn_wrong_nonce_rejected [where s = ex_sig1 and st = Map.empty and e = ex_env
         and cur = 0 and n = 5]
       Auth.vacn_wrong_nonce_rejected [where st = Map.empty and e = ex_env and n = 3] g
  show ?thesis by (simp add: get_nonce_def data_get_i64_def)
qed

lemma ex_run2:
  "run_res (\<lambda>st (s, n). verify_and_consume_nonce ex_env st s n) Map.empty [(ex_sig1, 0), (ex_sig1, 1)] =
   Inr [Nonce (Ed25519 ex_key1) \<mapsto> SI64 2]"
  by (simp add: get_nonce_def data_get_i64_def set_nonce_def)

theorem vacn_run_count_witness:
  "run_res (\<lambda>st (s, n). verify_and_consume_nonce ex_env st s n) Map.empty [(ex_sig1, 0), (ex_sig1, 1)] =
     Inr [Nonce (Ed25519 ex_key1) \<mapsto> SI64 2] \<and>
   get_nonce [Nonce (Ed25519 ex_key1) \<mapsto> SI64 2] (Ed25519 ex_key1) = Inr 2"
proof -
  have h: "\<forall>(s, n) \<in> set [(ex_sig1, 0::i64), (ex_sig1, 1)]. s \<noteq> Invoker \<and> sig_identifier ex_env s = Ed25519 ex_key1"
    by simp
  have g: "get_nonce Map.empty (Ed25519 ex_key1) = Inr 0"
    by (simp add: get_nonce_def data_get_i64_def)
  from Auth.vacn_run_count [OF h ex_run2 g] ex_run2 show ?thesis by simp
qed

lemma ex_run_invoker:
  "run_res (\<lambda>st n. verify_and_consume_nonce ex_env st Invoker n) ex_store1 [0, 0] = Inr ex_store1"
  by simp

theorem vacn_invoker_run_unchanged_witness:
  "run_res (\<lambda>st n. verify_and_consume_nonce ex_env st Invoker n) ex_store1 [0, 0] = Inr ex_store1 \<and>
   ex_store1 = ex_store1"
  using Auth.vacn_invoker_run_unchanged [OF ex_run_invoker] ex_run_invoker by simp

lemma ex_initialize: "initialize Map.empty ex_token_addr = Inr [Token \<mapsto> SBytes ex_token_addr]"
  by (simp add: initialize_def)

theorem initialize_token_roundtrip_witness:
  "initialize Map.empty ex_token_addr = Inr [Token \<mapsto> SBytes ex_token_addr] \<and>
   token [Token \<mapsto> SBytes ex_token_addr] = Inr ex_token_addr"
  using ByteBattle.initialize_token_roundtrip [OF ex_initialize] ex_initialize by simp

theorem initialize_write_once_witness:
  "initialize Map.empty ex_token_addr = Inr [Token \<mapsto> SBytes ex_token_addr] \<and>
   initialize [Token \<mapsto> SBytes ex_token_addr] ex_contract = Inl AlreadyInitialized"
  using ByteBattle.initialize_write_once [OF ex_initialize] ex_initialize by simp

theorem battle_same_signer_fails_witness:
  "ex_sig1 \<noteq> Invoker \<and> (\<forall>x. battle ex_env ex_world ex_sig1 ex_sig1 100 \<noteq> Inr x)"
  using ByteBattle.battle_same_signer_fails [of ex_sig1 ex_sig1 ex_env ex_world 100] by simp

lemma ex_auth: "battle_auth ex_env (data ex_world) ex_sig1 ex_sig2 100 = Inr ex_auth_store"
  by (simp add: eval_defs fun_upd_twist)

theorem battle_auth_symmetric_witness:
  "battle_auth ex_env (data ex_world) ex_sig1 ex_sig2 100 = Inr ex_auth_store \<and>
   battle_auth ex_env (data ex_world) ex_sig2 ex_sig1 100 = Inr ex_auth_store"
  using ByteBattle.battle_auth_symmetric [OF ex_auth] ex_auth by simp

theorem battle_escrow_failure_witness:
  "battle_auth ex_env (data ex_world_poor) ex_sig1 ex_sig2 100 = Inr ex_auth_store \<and>
   battle ex_env ex_world_poor ex_sig1 ex_sig2 100 = Inl (TokenFailed InsufficientBalance)"
proof -
  have a: "battle_auth ex_env (data ex_world_poor) ex_sig1 ex_sig2 100 = Inr ex_auth_store"
    using ex_auth by simp
  have t: "get_token ex_auth_store = Inr ex_token_addr"
    by (simp add: get_token_def data_get_bytes_def)
  have l: "tokens ex_world_poor ex_token_addr =
     Some (ex_ledger\<lparr>balance := (balance ex_ledger)(Ed25519 ex_key1 := 50)\<rparr>)"
    by simp
  have f: "xfer_from (self_ident ex_env) 0 (sig_identifier ex_env ex_sig1) (self_ident ex_env) 100
       (ex_ledger\<lparr>balance := (balance ex_ledger)(Ed25519 ex_key1 := 50)\<rparr>) = Inl InsufficientBalance \<or>
     (\<exists>tk1. xfer_from (self_ident ex_env) 0 (sig_identifier ex_env ex_sig1) (self_ident ex_env) 100
       (ex_ledger\<lparr>balance := (balance ex_ledger)(Ed25519 ex_key1 := 50)\<rparr>) = Inr tk1 \<and>
       xfer_from (self_ident ex_env) 0 (sig_identifier ex_env ex_sig2) (self_ident ex_env) 100 tk1 =
       Inl InsufficientBalance)"
    by (simp add: xfer_from_def spend_allowance_def spend_balance_def)
  show ?thesis using ByteBattle.battle_escrow_failure [OF a t l f] a by simp
qed

theorem battle_outcome_index_witness:
  "battle_outcome ex_env (Ed25519 ex_key1) (Ed25519 ex_key2) =
     Inr (ex_key1, ex_key1, 1, 1, Ed25519 ex_key2) \<and>
   unat (1::u32) = unat (timestamp ex_env) mod 32 \<and> unat (1::u32) < 48"
  using ByteBattle.battle_outcome_index [OF ex_outcome] ex_outcome by simp

theorem battle_outcome_total_witness:
  "length ex_key1 = 32 \<and> (\<exists>r. battle_outcome ex_env (Ed25519 ex_key1) (Ed25519 ex_key2) = Inr r)"
proof -
  have "(\<exists>k. (Ed25519 ex_key1 = Ed25519 k \<or> Ed25519 ex_key1 = Contract k) \<and> length k = 32) \<or>
        (\<exists>a. Ed25519 ex_key1 = Account a \<and> 48 \<le> length (serialize_account ex_env a))"
    by simp
  from ByteBattle.battle_outcome_total [OF this] show ?thesis by simp
qed

theorem battle_invoker_needs_zero_nonce_witness:
  "get_nonce (data ex_world_used) (invoker ex_env) = Inr 1 \<and>
   battle ex_env ex_world_used Invoker ex_sig2 100 = Inl IncorrectNonceForInvoker"
proof -
  have wf: "store_wf (data ex_world_used)" by simp
  have g: "get_nonce (data ex_world_used) (invoker ex_env) = Inr 1"
    by (simp add: get_nonce_def data_get_i64_def)
  have nz: "(1::i64) \<noteq> 0" by simp
  show ?thesis using ByteBattle.battle_invoker_needs_zero_nonce [OF wf g nz] g by simp
qed

theorem battle_uninitialized_fails_witness:
  "data ex_world_uninit Token = None \<and> (\<forall>x. battle ex_env ex_world_uninit ex_sig1 ex_sig2 100 \<noteq> Inr x)"
  using ByteBattle.battle_uninitialized_fails [of ex_world_uninit] by simp

lemma ex_reachable_init:
  "reachable \<lparr>data = [Token \<mapsto> SBytes ex_token_addr], tokens = [ex_token_addr \<mapsto> ex_ledger]\<rparr>"
proof -
  have "reachable (fst (invoke ex_env \<lparr>data = Map.empty, tokens = [ex_token_addr \<mapsto> ex_ledger]\<rparr>
                       (Initialize ex_token_addr)))"
    by (rule reachable.step [OF reachable.deployed ledger_step.contract_call])
  then show ?thesis by (simp add: initialize_def)
qed

theorem reachable_store_wf_witness:
  "reachable ex_world \<and> store_wf (data ex_world)"
  using Transactions.reachable_store_wf [OF ex_reachable_init] ex_reachable_init by simp

theorem token_write_once_witness:
  "ledger_step\<^sup>*\<^sup>* ex_world (fst (invoke ex_env ex_world (Battle ex_sig1 ex_sig2 100))) \<and>
   get_token (data (fst (invoke ex_env ex_world (Battle ex_sig1 ex_sig2 100)))) = Inr ex_token_addr"
proof -
  have s: "ledger_step\<^sup>*\<^sup>* ex_world (fst (invoke ex_env ex_world (Battle ex_sig1 ex_sig2 100)))"
    by (rule r_into_rtranclp, rule ledger_step.contract_call)
  have t: "get_token (data ex_world) = Inr ex_token_addr" by simp
  from Transactions.token_write_once [OF s t] s show ?thesis by simp
qed

theorem ledger_step_nonce_witness:
  "ledger_step ex_world (fst (invoke ex_env ex_world (Battle ex_sig1 ex_sig2 100))) \<and>
   (get_nonce (data (fst (invoke ex_env ex_world (Battle ex_sig1 ex_sig2 100)))) (Ed25519 ex_key1) =
      get_nonce (data ex_world) (Ed25519 ex_key1) \<or>
    (\<exists>n. get_nonce (data ex_world) (Ed25519 ex_key1) = Inr n \<and>
         get_nonce (data (fst (invoke ex_env ex_world (Battle ex_sig1 ex_sig2 100)))) (Ed25519 ex_key1) =
           Inr (n + 1)))"
proof -
  have s: "ledger_step ex_world (fst (invoke ex_env ex_world (Battle ex_sig1 ex_sig2 100)))"
    by (rule ledger_step.contract_call)
  from Transactions.ledger_step_nonce [OF s, of "Ed25519 ex_key1"] s show ?thesis by blast
qed

theorem battle_succeeds_witness:
  "\<exists>w' r. battle ex_env ex_world ex_sig1 ex_sig2 100 = Inr (w', r)"
  using ByteBattle.battle_succeeds [of ex_world ex_token_addr ex_ledger ex_sig1
      "\<lparr>public_key = ex_key1, signature = SignedBy ex_key1
         (signature_payload ex_env ''battle'' [RId (Ed25519 ex_key1), RI64 0, RId (Ed25519 ex_key2), RBigInt 100])\<rparr>"
      ex_sig2
      "\<lparr>public_key = ex_key2, signature = SignedBy ex_key2
         (signature_payload ex_env ''battle'' [RId (Ed25519 ex_key2), RI64 0, RId (Ed25519 ex_key1), RBigInt 100])\<rparr>"
      0 0 ex_env 100]
  by (simp add: get_token_def data_get_bytes_def get_nonce_def data_get_i64_def)

theorem invoke_refines_witness:
  "store_wf (data ex_world) \<and> below_max (data ex_world) \<and>
   snd (invoke ex_env ex_world (NonceOf (Ed25519 ex_key1))) = Inr (RNonce 0)"
proof -
  have wf: "store_wf (data ex_world)" by simp
  have b: "below_max (data ex_world)" by (simp add: below_max_def abs_counter_def)
  from Abstract_Contract.invoke_refines [OF wf b, of ex_env "NonceOf (Ed25519 ex_key1)"]
  have "snd (invoke ex_env ex_world (NonceOf (Ed25519 ex_key1))) =
      Inr (RNonce (word_of_int (abs_counter (data ex_world) (Ed25519 ex_key1))))"
    by simp
  with wf b show ?thesis by (simp add: abs_counter_def)
qed

theorem reachable_no_conversion_error_witness:
  "reachable ex_world \<and> snd (invoke ex_env ex_world (NonceOf (Ed25519 ex_key1))) \<noteq> Inl ConversionError"
  using Transactions.reachable_no_conversion_error [OF ex_reachable_init, of ex_env
      "NonceOf (Ed25519 ex_key1)"] ex_reachable_init
  by blast

theorem test_battle_passes_witness:
  "length ex_key1 = 32 \<and> ex_key1 \<noteq> ex_key2 \<and> test_battle ex_env ex_token_addr ex_key1 ex_key2"
  using Tests.test_battle_passes [of ex_key1 ex_key2 ex_env ex_token_addr] by simp

lemma ex_battle_calls:
  "fst (battle_calls ex_env ex_world ex_sig1 ex_sig2 100) =
     [CallXferFrom (Ed25519 ex_key1) (Contract ex_contract) 100,
      CallXferFrom (Ed25519 ex_key2) (Contract ex_contract) 100, CallXfer (Ed25519 ex_key2) 200]"
  by (simp add: battle_calls_def eval_defs)

theorem battle_token_effect_witness:
  "\<exists>w' r tk'. battle ex_env ex_world ex_sig1 ex_sig2 100 = Inr (w', r) \<and>
     tokens w' ex_token_addr = Some tk' \<and> balance tk' (Ed25519 ex_key1) = 0 \<and>
     balance tk' (Ed25519 ex_key2) = 200 \<and> balance tk' (Contract ex_contract) = 0"
proof -
  obtain w' r where ok: "battle ex_env ex_world ex_sig1 ex_sig2 100 = Inr (w', r)"
    using ex_battle_Inr by blast
  from Settlement.battle_token_effect [OF ok] obtain addr tk tk' where
    tok: "get_token (data ex_world) = Inr addr" and tk: "tokens ex_world addr = Some tk" and
    tk': "tokens w' addr = Some tk'" and
    bal: "\<forall>x. balance tk' x = balance tk x - (if x = sig_identifier ex_env ex_sig1 then 100 else 0)
                                       + (if x = sig_identifier ex_env ex_sig2 then 100 else 0)"
    by blast
  from tok have a: "addr = ex_token_addr" by (simp add: get_token_def data_get_bytes_def)
  with tk have l: "tk = ex_ledger" by simp
  have "balance tk' (Ed25519 ex_key1) = 0" "balance tk' (Ed25519 ex_key2) = 200"
      "balance tk' (Contract ex_contract) = 0"
    using bal [rule_format, of "Ed25519 ex_key1"] bal [rule_format, of "Ed25519 ex_key2"]
      bal [rule_format, of "Contract ex_contract"] l
    by simp_all
  with a ok tk' show ?thesis by blast
qed

theorem payout_after_escrows_witness:
  "CallXfer (Ed25519 ex_key2) 200 \<in> set (fst (battle_calls ex_env ex_world ex_sig1 ex_sig2 100)) \<and>
   (\<exists>st. battle_auth ex_env (data ex_world) ex_sig1 ex_sig2 100 = Inr st)"
proof -
  have c: "CallXfer (Ed25519 ex_key2) 200 \<in> set (fst (battle_calls ex_env ex_world ex_sig1 ex_sig2 100))"
    by (simp add: ex_battle_calls)
  from Settlement.payout_after_escrows [OF c] c show ?thesis by blast
qed

theorem no_token_call_before_auth_witness:
  "fst (battle_calls ex_env ex_world ex_sig1 ex_sig2 100) \<noteq> [] \<and>
   (\<exists>st. battle_auth ex_env (data ex_world) ex_sig1 ex_sig2 100 = Inr st)"
proof -
  have c: "fst (battle_calls ex_env ex_world ex_sig1 ex_sig2 100) \<noteq> []"
    by (simp add: ex_battle_calls)
  from Settlement.no_token_call_before_auth [OF c] c show ?thesis by blast
qed

lemma ex_two_battles:
  "\<exists>x. battle ex_env ex_world4 ex_sig1 ex_sig2 100 = Inr x \<and>
     (\<exists>y. battle ex_env (fst x) ex_sig3 ex_sig4 50 = Inr y)"
  by (simp add: eval_defs)

theorem battles_commute_witness:
  "\<exists>w1 r1 w2 r2. battle ex_env ex_world4 ex_sig1 ex_sig2 100 = Inr (w1, r1) \<and>
     battle ex_env w1 ex_sig3 ex_sig4 50 = Inr (w2, r2) \<and>
     (\<exists>w1'. battle ex_env ex_world4 ex_sig3 ex_sig4 50 = Inr (w1', r2) \<and>
            battle ex_env w1' ex_sig1 ex_sig2 100 = Inr (w2, r1))"
proof -
  obtain w1 r1 w2 r2 where A: "battle ex_env ex_world4 ex_sig1 ex_sig2 100 = Inr (w1, r1)"
      and B: "battle ex_env w1 ex_sig3 ex_sig4 50 = Inr (w2, r2)"
    using ex_two_battles by fastforce
  have same: "current_contract ex_env = current_contract ex_env" by simp
  have disj: "{sig_identifier ex_env ex_sig1, sig_identifier ex_env ex_sig2} \<inter>
      {sig_identifier ex_env ex_sig3, sig_identifier ex_env ex_sig4} = {}" by simp
  have me: "self_ident ex_env \<notin> {sig_identifier ex_env ex_sig1, sig_identifier ex_env ex_sig2,
      sig_identifier ex_env ex_sig3, sig_identifier ex_env ex_sig4}" by simp
  from Interleaving.battles_commute [OF A B same disj me] A B show ?thesis by blast
qed

theorem battle_auth_account_player1_witness:
  "\<exists>st'. battle_auth ex_env_acc (data ex_world) ex_sig_acc ex_sig2_acc 100 = Inr st' \<and>
     sorted_wrt (<) (map public_key (signatures \<lparr>account_id = ex_acct, signatures =
       [\<lparr>public_key = ex_key1, signature = SignedBy ex_key1 (signature_payload ex_env_acc ''battle''
          [RId (Account ex_acct), RI64 0, RId (Ed25519 ex_key2), RBigInt 100])\<rparr>]\<rparr>))"
proof -
  have "\<exists>st'. battle_auth ex_env_acc (data ex_world) ex_sig_acc ex_sig2_acc 100 = Inr st'"
    by (simp add: eval_defs verify_account_signatures_def)
  then obtain st' where ok: "battle_auth ex_env_acc (data ex_world) ex_sig_acc ex_sig2_acc 100 = Inr st'"
    by blast
  from ByteBattle.battle_auth_account_player1 [OF ok] ok show ?thesis by blast
qed

theorem run_calls_refines_witness:
  "store_wf (data ex_world) \<and>
   (\<forall>who. abs_counter (data ex_world) who + 2 * int (length ex_run) < 2 ^ 63 - 1) \<and>
   spec_run ex_run (snd (run_calls ex_world ex_run)) (abs_store (data ex_world)) =
     Some (abs_store (data (fst (run_calls ex_world ex_run))))"
proof -
  have wf: "store_wf (data ex_world)" by simp
  have b: "\<forall>who. abs_counter (data ex_world) who + 2 * int (length ex_run) < 2 ^ 63 - 1"
    by (simp add: abs_counter_def)
  from Abstract_Contract.run_calls_refines [OF wf b] wf b show ?thesis by blast
qed

theorem battle_negative_stake_witness:
  "(\<exists>st. battle_auth ex_env (data ex_world) ex_sig1_neg ex_sig2_neg (-5) = Inr st) \<and>
   battle ex_env ex_world ex_sig1_neg ex_sig2_neg (-5) = Inl (TokenFailed NegativeAmount)"
proof -
  obtain st where auth: "battle_auth ex_env (data ex_world) ex_sig1_neg ex_sig2_neg (-5) = Inr st"
    by (fastforce simp: battle_auth_def Let_def get_nonce_def data_get_i64_def set_nonce_def
        signature_payload_def verify_sig_ed25519_def)
  have tok: "get_token (data ex_world) = Inr ex_token_addr" by simp
  have tk: "tokens ex_world ex_token_addr = Some ex_ledger" by simp
  have neg: "(-5 :: int) < 0" by simp
  from ByteBattle.battle_negative_stake [OF auth tok tk neg] auth show ?thesis by blast
qed

theorem battle_order_picks_winner_witness:
  "(\<exists>w' r. battle ex_env ex_world ex_sig1 ex_sig2 100 = Inr (w', r)) \<and>
   (\<exists>w'' r' tk''. battle ex_env ex_world ex_sig2 ex_sig1 100 = Inr (w'', r') \<and>
      tokens w'' ex_token_addr = Some tk'' \<and>
      balance tk'' (Ed25519 ex_key1) = 200 \<and> balance tk'' (Ed25519 ex_key2) = 0)"
proof -
  obtain w' r where ok: "battle ex_env ex_world ex_sig1 ex_sig2 100 = Inr (w', r)"
    using ex_battle_Inr by blast
  have d: "sig_identifier ex_env ex_sig1 \<noteq> sig_identifier ex_env ex_sig2" by simp
  have me: "self_ident ex_env \<notin> {sig_identifier ex_env ex_sig1, sig_identifier ex_env ex_sig2}"
    by simp
  have k: "(\<exists>k. (sig_identifier ex_env ex_sig2 = Ed25519 k \<or> sig_identifier ex_env ex_sig2 = Contract k) \<and>
      length k = 32) \<or>
    (\<exists>a. sig_identifier ex_env ex_sig2 = Account a \<and> 48 \<le> length (serialize_account ex_env a))"
    by simp
  from Interleaving.battle_order_picks_winner [OF ok d me k] obtain w'' r' addr tk tk'' where
    sw: "battle ex_env ex_world ex_sig2 ex_sig1 100 = Inr (w'', r')" and
    tok: "get_token (data ex_world) = Inr addr" and tk: "tokens ex_world addr = Some tk" and
    tk'': "tokens w'' addr = Some tk''" and
    b: "balance tk'' (sig_identifier ex_env ex_sig1) = balance tk (sig_identifier ex_env ex_sig1) + 100"
       "balance tk'' (sig_identifier ex_env ex_sig2) = balance tk (sig_identifier ex_env ex_sig2) - 100"
    by blast
  from tok have a: "addr = ex_token_addr" by (simp add: get_token_def data_get_bytes_def)
  with tk have "tk = ex_ledger" by simp
  with b have "balance tk'' (Ed25519 ex_key1) = 200" "balance tk'' (Ed25519 ex_key2) = 0"
    by simp_all
  with a ok sw tk'' show ?thesis by blast
qed

theorem battle_relay_witness:
  "ex_sig1 \<noteq> Invoker \<and> ex_sig2 \<noteq> Invoker \<and>
   battle (ex_env\<lparr>invoker := Ed25519 ex_key3\<rparr>) ex_world ex_sig1 ex_sig2 100 =
   battle ex_env ex_world ex_sig1 ex_sig2 100"
proof -
  have s: "ex_sig1 \<noteq> Invoker" "ex_sig2 \<noteq> Invoker" by simp_all
  from Interleaving.battle_relay [OF s] s show ?thesis by blast
qed

end
